theory Spec2Isabelle
  imports Complex_Main "HOL-Library.Multiset"
begin

section \<open>JavaScript numbers\<close>

text \<open>
  The packed bubble series computes with JavaScript numbers. They are modelled as the
  real numbers extended by the two infinities and NaN: arithmetic on finite values is
  exact (no rounding, no overflow), and the special values follow IEEE 754 as JavaScript
  does. Signed zeros are not distinguished: a division of a non-zero number by zero
  takes the sign of the dividend. A slot of an array that may hold \<open>null\<close> is a
  \<open>number option\<close>, with \<open>None\<close> for \<open>null\<close>.
\<close>

datatype number = Fin real | PInf | NInf | NaN

type_synonym jsval = "number option"

text \<open>The conversion applied to an operand of an arithmetic operator: \<open>null\<close> becomes 0.\<close>

fun ToNumber :: "jsval \<Rightarrow> number" where
  "ToNumber None = Fin 0"
| "ToNumber (Some n) = n"

fun nneg :: "number \<Rightarrow> number" where
  "nneg (Fin a) = Fin (- a)"
| "nneg PInf = NInf"
| "nneg NInf = PInf"
| "nneg NaN = NaN"

fun nadd :: "number \<Rightarrow> number \<Rightarrow> number" where
  "nadd (Fin a) (Fin b) = Fin (a + b)"
| "nadd NaN _ = NaN"
| "nadd _ NaN = NaN"
| "nadd PInf NInf = NaN"
| "nadd NInf PInf = NaN"
| "nadd PInf _ = PInf"
| "nadd _ PInf = PInf"
| "nadd NInf _ = NInf"
| "nadd _ NInf = NInf"

definition nsub :: "number \<Rightarrow> number \<Rightarrow> number" where
  "nsub a b = nadd a (nneg b)"

fun nmul :: "number \<Rightarrow> number \<Rightarrow> number" where
  "nmul (Fin a) (Fin b) = Fin (a * b)"
| "nmul NaN _ = NaN"
| "nmul _ NaN = NaN"
| "nmul PInf (Fin b) = (if b = 0 then NaN else if 0 < b then PInf else NInf)"
| "nmul NInf (Fin b) = (if b = 0 then NaN else if 0 < b then NInf else PInf)"
| "nmul (Fin a) PInf = (if a = 0 then NaN else if 0 < a then PInf else NInf)"
| "nmul (Fin a) NInf = (if a = 0 then NaN else if 0 < a then NInf else PInf)"
| "nmul PInf PInf = PInf"
| "nmul NInf NInf = PInf"
| "nmul PInf NInf = NInf"
| "nmul NInf PInf = NInf"

fun ndiv :: "number \<Rightarrow> number \<Rightarrow> number" where
  "ndiv (Fin a) (Fin b) =
     (if b = 0 then (if a = 0 then NaN else if 0 < a then PInf else NInf)
      else Fin (a / b))"
| "ndiv NaN _ = NaN"
| "ndiv _ NaN = NaN"
| "ndiv (Fin a) PInf = Fin 0"
| "ndiv (Fin a) NInf = Fin 0"
| "ndiv PInf (Fin b) = (if b < 0 then NInf else PInf)"
| "ndiv NInf (Fin b) = (if b < 0 then PInf else NInf)"
| "ndiv PInf PInf = NaN"
| "ndiv PInf NInf = NaN"
| "ndiv NInf PInf = NaN"
| "ndiv NInf NInf = NaN"

text \<open>\<open>isFinite\<close>, and the real number that a finite number is.\<close>

fun isFinite :: "number \<Rightarrow> bool" where
  "isFinite (Fin a) = True"
| "isFinite _ = False"

fun fin_value :: "number \<Rightarrow> real" where
  "fin_value (Fin a) = a"
| "fin_value _ = 0"

text \<open>The relational operators: every comparison with NaN is false.\<close>

fun nless :: "number \<Rightarrow> number \<Rightarrow> bool" where
  "nless (Fin a) (Fin b) = (a < b)"
| "nless NaN _ = False"
| "nless _ NaN = False"
| "nless NInf NInf = False"
| "nless NInf _ = True"
| "nless _ NInf = False"
| "nless PInf _ = False"
| "nless _ PInf = True"

definition ngreater :: "number \<Rightarrow> number \<Rightarrow> bool" where
  "ngreater a b = nless b a"

definition ngeq :: "number \<Rightarrow> number \<Rightarrow> bool" where
  "ngeq a b = (a \<noteq> NaN \<and> b \<noteq> NaN \<and> \<not> nless a b)"

subsection \<open>The functions of \<open>Math\<close>\<close>

fun Math_abs :: "number \<Rightarrow> number" where
  "Math_abs (Fin a) = Fin \<bar>a\<bar>"
| "Math_abs PInf = PInf"
| "Math_abs NInf = PInf"
| "Math_abs NaN = NaN"

fun Math_sqrt :: "number \<Rightarrow> number" where
  "Math_sqrt (Fin a) = (if a < 0 then NaN else Fin (sqrt a))"
| "Math_sqrt PInf = PInf"
| "Math_sqrt NInf = NaN"
| "Math_sqrt NaN = NaN"

text \<open>\<open>Math.pow(x, 2)\<close>, the only use of \<open>Math.pow\<close> in the series.\<close>

definition Math_pow2 :: "number \<Rightarrow> number" where
  "Math_pow2 a = nmul a a"

fun Math_ceil :: "number \<Rightarrow> number" where
  "Math_ceil (Fin a) = Fin (of_int \<lceil>a\<rceil>)"
| "Math_ceil n = n"

fun Math_acos :: "number \<Rightarrow> number" where
  "Math_acos (Fin a) = (if - 1 \<le> a \<and> a \<le> 1 then Fin (arccos a) else NaN)"
| "Math_acos _ = NaN"

fun Math_asin :: "number \<Rightarrow> number" where
  "Math_asin (Fin a) = (if - 1 \<le> a \<and> a \<le> 1 then Fin (arcsin a) else NaN)"
| "Math_asin _ = NaN"

fun Math_sin :: "number \<Rightarrow> number" where
  "Math_sin (Fin a) = Fin (sin a)"
| "Math_sin _ = NaN"

fun Math_cos :: "number \<Rightarrow> number" where
  "Math_cos (Fin a) = Fin (cos a)"
| "Math_cos _ = NaN"

definition Math_min :: "number \<Rightarrow> number \<Rightarrow> number" where
  "Math_min a b = (if a = NaN \<or> b = NaN then NaN else if nless b a then b else a)"

definition Math_max :: "number \<Rightarrow> number \<Rightarrow> number" where
  "Math_max a b = (if a = NaN \<or> b = NaN then NaN else if nless a b then b else a)"

text \<open>A value is falsy when it is \<open>null\<close>, 0 or NaN; \<open>v || 1\<close> replaces a falsy value by 1.\<close>

definition falsy :: "jsval \<Rightarrow> bool" where
  "falsy v = (v = None \<or> v = Some (Fin 0) \<or> v = Some NaN)"

definition or_one :: "jsval \<Rightarrow> jsval" where
  "or_one v = (if falsy v then Some (Fin 1) else v)"

section \<open>Bubbles\<close>

text \<open>
  A bubble is the five-slot array
  \<open>[pixel x value, pixel y value, radius, related series index, related point index]\<close>;
  the record names the slots 0 to 4 in this order.
\<close>

record bubble =
  cx :: jsval
  cy :: jsval
  radius :: jsval
  seriesIndex :: jsval
  pointIndex :: jsval

subsection \<open>checkOverlap\<close>

definition checkOverlap :: "bubble \<Rightarrow> bubble \<Rightarrow> bool" where
  "checkOverlap bubble1 bubble2 =
     (let diffX = nsub (ToNumber (cx bubble1)) (ToNumber (cx bubble2));
          diffY = nsub (ToNumber (cy bubble1)) (ToNumber (cy bubble2));
          sumRad = nadd (ToNumber (radius bubble1)) (ToNumber (radius bubble2))
      in nless (nsub (Math_sqrt (nadd (nmul diffX diffX) (nmul diffY diffY)))
                     (Math_abs sumRad))
               (Fin (- (1 / 1000))))"

subsection \<open>checkOverlap in binary64 arithmetic\<close>

text \<open>
  An engine computes checkOverlap on IEEE 754 binary64 numbers: the subtraction, the
  addition, the multiplication and the square root each return the exact result rounded to
  the nearest double, ties to even, and the literal \<open>-0.001\<close> is the double nearest to it.
  \<open>binade x\<close> is the exponent of the power of two at or below \<open>\<bar>x\<bar>\<close>, and not less than
  -1022, where the subnormal numbers begin; \<open>ulp x\<close> is the distance of neighbouring
  doubles there.
\<close>

definition binade :: "real \<Rightarrow> int" where
  "binade x = max \<lfloor>log 2 \<bar>x\<bar>\<rfloor> (- 1022)"

definition ulp :: "real \<Rightarrow> real" where
  "ulp x = 2 powi (binade x - 52)"

text \<open>The nearest integer, the even one of the two when they are equally near.\<close>

definition round_ties_even :: "real \<Rightarrow> int" where
  "round_ties_even q =
     (let f = \<lfloor>q\<rfloor>
      in if q - of_int f < 1 / 2 then f
         else if 1 / 2 < q - of_int f then f + 1
         else if even f then f else f + 1)"

text \<open>
  The double nearest to a real number; a result that reaches \<open>2 ^ 1024\<close> overflows to an
  infinity. \<open>binary64\<close> rounds the result of an operation, which is infinite or NaN as it
  is in the exact arithmetic.
\<close>

definition fl :: "real \<Rightarrow> number" where
  "fl x =
     (if x = 0 then Fin 0
      else (let y = of_int (round_ties_even (x / ulp x)) * ulp x
            in if 2 ^ 1024 \<le> \<bar>y\<bar> then (if 0 < x then PInf else NInf) else Fin y))"

fun binary64 :: "number \<Rightarrow> number" where
  "binary64 (Fin x) = fl x"
| "binary64 n = n"

text \<open>
  checkOverlap with every operation rounded. \<open>Math.abs\<close> and the comparison are exact.
  The functions \<open>Math.acos\<close>, \<open>Math.asin\<close>, \<open>Math.sin\<close> and \<open>Math.cos\<close> that
  positionBubble calls are implementation-approximated, so that positionBubble has no
  model of this kind; the packing is described in the exact arithmetic.
\<close>

definition checkOverlap_binary64 :: "bubble \<Rightarrow> bubble \<Rightarrow> bool" where
  "checkOverlap_binary64 bubble1 bubble2 =
     (let diffX = binary64 (nsub (ToNumber (cx bubble1)) (ToNumber (cx bubble2)));
          diffY = binary64 (nsub (ToNumber (cy bubble1)) (ToNumber (cy bubble2)));
          sumRad = binary64 (nadd (ToNumber (radius bubble1)) (ToNumber (radius bubble2)))
      in nless (binary64 (nsub (binary64 (Math_sqrt (binary64
                   (nadd (binary64 (nmul diffX diffX)) (binary64 (nmul diffY diffY))))))
                 (Math_abs sumRad)))
               (binary64 (Fin (- (1 / 1000)))))"

subsection \<open>positionBubble\<close>

text \<open>
  lastBubble is the bubble added last, newOrigin the bubble around which the new one is
  placed, nextBubble the bubble whose position is calculated.
\<close>

definition positionBubble :: "bubble \<Rightarrow> bubble \<Rightarrow> bubble \<Rightarrow> bubble" where
  "positionBubble lastBubble newOrigin nextBubble =
     (let l0 = ToNumber (cx lastBubble); l1 = ToNumber (cy lastBubble);
          l2 = ToNumber (radius lastBubble);
          o0 = ToNumber (cx newOrigin); o1 = ToNumber (cy newOrigin);
          o2 = ToNumber (radius newOrigin);
          n2 = ToNumber (radius nextBubble);
          distance = Math_sqrt (nadd (Math_pow2 (nsub l0 o0)) (Math_pow2 (nsub l1 o1)));
          alfa = Math_acos
                   (ndiv (nsub (nadd (Math_pow2 distance) (Math_pow2 (nadd n2 o2)))
                               (Math_pow2 (nadd n2 l2)))
                         (nmul (nmul (Fin 2) (nadd n2 o2)) distance));
          beta = Math_asin (ndiv (Math_abs (nsub l0 o0)) distance);
          gamma = (if nless (nsub l1 o1) (Fin 0) then Fin 0 else Fin pi);
          delta = (if nless (nmul (nsub l0 o0) (nsub l1 o1)) (Fin 0) then Fin 1 else Fin (- 1));
          finalAngle = nadd (nadd gamma alfa) (nmul beta delta);
          cosA = Math_cos finalAngle;
          sinA = Math_sin finalAngle;
          posX = nadd o0 (nmul (nadd o2 n2) sinA);
          posY = nsub o1 (nmul (nadd o2 n2) cosA)
      in \<lparr>cx = Some posX, cy = Some posY, radius = radius nextBubble,
          seriesIndex = seriesIndex nextBubble, pointIndex = pointIndex nextBubble\<rparr>)"

text \<open>
  The angle that positionBubble computes from finite values: \<open>dx\<close>, \<open>dy\<close> is the offset
  of lastBubble from newOrigin, \<open>a\<close> the sum of the radii of nextBubble and newOrigin,
  \<open>b\<close> the sum of the radii of nextBubble and lastBubble.
\<close>

definition finalAngle_of :: "real \<Rightarrow> real \<Rightarrow> real \<Rightarrow> real \<Rightarrow> real" where
  "finalAngle_of dx dy a b =
     (let d = sqrt (dx * dx + dy * dy)
      in (if dy < 0 then 0 else pi)
         + arccos ((d * d + a * a - b * b) / (2 * a * d))
         + arcsin (\<bar>dx\<bar> / d) * (if dx * dy < 0 then 1 else - 1))"

section \<open>The chart and the series\<close>

text \<open>
  The fields of the chart that the series reads and writes. \<open>stages\<close>,
  \<open>rawPositions\<close>, \<open>diffX\<close>, \<open>diffY\<close>, \<open>minRadius\<close> and \<open>maxRadius\<close> are
  written by the series; their initial content is whatever an earlier layout left.
\<close>

record chart =
  plotLeft :: number
  plotTop :: number
  plotWidth :: number
  plotHeight :: number
  minRadius :: number
  maxRadius :: number
  stages :: "bubble list list"
  rawPositions :: "bubble list"
  diffX :: number
  diffY :: number

text \<open>
  A chart with the given plot area before its first layout. The fields that the series
  writes are still undefined there; the arrays are never read before they are written,
  and NaN stands for an undefined number (arithmetic on \<open>undefined\<close> yields NaN).
\<close>

definition fresh_chart :: "number \<Rightarrow> number \<Rightarrow> number \<Rightarrow> number \<Rightarrow> chart" where
  "fresh_chart pLeft pTop pWidth pHeight =
     \<lparr>plotLeft = pLeft, plotTop = pTop, plotWidth = pWidth, plotHeight = pHeight,
      minRadius = NaN, maxRadius = NaN, stages = [], rawPositions = [],
      diffX = NaN, diffY = NaN\<rparr>"

text \<open>
  The series. \<open>minPointSize\<close> and \<open>maxPointSize\<close> hold what the built-in
  \<open>parseInt(seriesOptions[prop], 10)\<close> returns for the two options; \<open>parseInt\<close> itself
  is not part of the series.
\<close>

record series =
  chart :: chart
  minPointSize :: number
  maxPointSize :: number
  sizeBy :: string
  allDataPoints :: "bubble list"
  radii :: "jsval list"

subsection \<open>accumulateAllPoints\<close>

text \<open>
  What accumulateAllPoints reads of each series of the chart. Every value of a visible
  series becomes a bubble \<open>[null, null, value, series.index, j]\<close>.
\<close>

record chart_series =
  visible :: bool
  processedYData :: "jsval list"
  index :: number

definition accumulateAllPoints :: "chart_series list \<Rightarrow> bubble list" where
  "accumulateAllPoints chart_series_list =
     concat (map (\<lambda>series.
        if visible series
        then map (\<lambda>(j, y). \<lparr>cx = None, cy = None, radius = y,
                              seriesIndex = Some (index series),
                              pointIndex = Some (Fin (real j))\<rparr>)
                 (enumerate 0 (processedYData series))
        else []) chart_series_list)"

subsection \<open>getRadius\<close>

text \<open>
  \<open>isPercent = /%$/.test(length)\<close> tests \<open>length\<close>, the number that \<open>parseInt\<close>
  returned (here \<open>len\<close>), not the option: the decimal representation of a number never
  ends in a percent sign.
\<close>

definition isPercent :: "number \<Rightarrow> bool" where
  "isPercent len = False"

definition extremes :: "number \<Rightarrow> number \<Rightarrow> number" where
  "extremes smallestSize len =
     (if isPercent len then ndiv (nmul smallestSize len) (Fin 100) else len)"

text \<open>The body of the loop over allDataPoints: the radius for the value in slot 2.\<close>

definition pointRadius :: "number \<Rightarrow> number \<Rightarrow> bool \<Rightarrow> jsval \<Rightarrow> jsval" where
  "pointRadius minSize maxSize sizeByArea value =
     (let radiusRange = nsub maxSize minSize
      in if value = None \<or> value = Some (Fin 0) then None
         else if nless (ToNumber value) minSize then Some (nsub minSize (Fin 1))
         else
           (let pos = (if ngreater radiusRange (Fin 0)
                       then ndiv (nsub (ToNumber value) minSize) radiusRange
                       else Fin (1 / 2));
                pos = (if sizeByArea \<and> ngeq pos (Fin 0) then Math_sqrt pos else pos)
            in Some (ndiv (Math_ceil (nadd minSize (nmul pos (nsub maxSize minSize))))
                          (Fin 2))))"

definition getRadius :: "series \<Rightarrow> series" where
  "getRadius s =
     (let plotWidth = plotWidth (chart s);
          plotHeight = plotHeight (chart s);
          smallestSize = Math_min plotWidth plotHeight;
          sizeByArea = (sizeBy s \<noteq> ''width'');
          minSize = extremes smallestSize (minPointSize s);
          maxSize = extremes smallestSize (maxPointSize s);
          radius_of = (\<lambda>point. pointRadius minSize maxSize sizeByArea (radius point))
      in s\<lparr>chart := (chart s)\<lparr>minRadius := minSize, maxRadius := maxSize\<rparr>,
           allDataPoints := map (\<lambda>point. point\<lparr>radius := radius_of point\<rparr>) (allDataPoints s),
           radii := map radius_of (allDataPoints s)\<rparr>)"

subsection \<open>placeBubbles\<close>

text \<open>
  \<open>allDataPoints.sort(function (a, b) { return b[2] - a[2]; })\<close>: a positive result of
  the comparator puts \<open>a\<close> behind \<open>b\<close>. The sort is modelled as the stable insertion
  sort, which is what every stable sort yields for a consistent comparator.
\<close>

definition compare_radius :: "bubble \<Rightarrow> bubble \<Rightarrow> number" where
  "compare_radius a b = nsub (ToNumber (radius b)) (ToNumber (radius a))"

fun insert_bubble :: "bubble \<Rightarrow> bubble list \<Rightarrow> bubble list" where
  "insert_bubble a [] = [a]"
| "insert_bubble a (b # bs) =
     (if ngreater (compare_radius a b) (Fin 0) then b # insert_bubble a bs else a # b # bs)"

definition sort_bubbles :: "bubble list \<Rightarrow> bubble list" where
  "sort_bubbles bs = foldr insert_bubble bs []"

text \<open>
  The variables of the main loop: \<open>bubblePos\<close> holds the levels (stages) of bubbles,
  \<open>stage\<close> is the current level, \<open>last_j\<close> (the source's \<open>j\<close>) indexes the bubble
  added last to the current level and \<open>pivot_k\<close> (the source's \<open>k\<close>) the bubble of the
  previous level around which new bubbles are positioned.
\<close>

record packing =
  bubblePos :: "bubble list list"
  stage :: nat
  last_j :: nat
  pivot_k :: nat

text \<open>The two bubbles positioned before the loop.\<close>

definition seed_packing :: "bubble list \<Rightarrow> packing" where
  "seed_packing sortedArr =
     \<lparr>bubblePos =
        [[\<lparr>cx = Some (Fin 0), cy = Some (Fin 0), radius = radius (sortedArr ! 0),
           seriesIndex = seriesIndex (sortedArr ! 0),
           pointIndex = pointIndex (sortedArr ! 0)\<rparr>],
         [\<lparr>cx = Some (Fin 0),
           cy = Some (nsub (nsub (Fin 0) (ToNumber (radius (sortedArr ! 1))))
                           (ToNumber (radius (sortedArr ! 0)))),
           radius = radius (sortedArr ! 1),
           seriesIndex = seriesIndex (sortedArr ! 1),
           pointIndex = pointIndex (sortedArr ! 1)\<rparr>]],
      stage = 1, last_j = 0, pivot_k = 0\<rparr>"

text \<open>\<open>sortedArr[i][2] = sortedArr[i][2] || 1\<close>\<close>

definition coerce_radius :: "bubble \<Rightarrow> bubble" where
  "coerce_radius b = b\<lparr>radius := or_one (radius b)\<rparr>"

text \<open>
  The body of the loop after the coercion of the radius, for the bubble \<open>nextBubble\<close>
  (\<open>sortedArr[i]\<close>). The test of \<open>bubblePos[stage - 1][k + 1]\<close> is the test that the
  previous level has a bubble at \<open>k + 1\<close>. All other array reads are within bounds in
  every state of the loop (see \<open>packing_inv\<close> below), where \<open>stage\<close> is the last level,
  so that the level pushed at a ring change is \<open>bubblePos[stage + 1]\<close>.
\<close>

definition placeStep :: "packing \<Rightarrow> bubble \<Rightarrow> packing" where
  "placeStep st nextBubble =
     (let bp = bubblePos st; stg = stage st; j = last_j st; k = pivot_k st;
          calculatedBubble = positionBubble (bp ! stg ! j) (bp ! (stg - 1) ! k) nextBubble
      in if checkOverlap calculatedBubble (bp ! stg ! 0) then
           (let bp1 = bp @ [[]];
                bp2 = bp1[stg + 1 := bp1 ! (stg + 1)
                            @ [positionBubble (bp ! stg ! j) (bp ! stg ! 0) nextBubble]]
            in \<lparr>bubblePos = bp2, stage = stg + 1, last_j = 0, pivot_k = 0\<rparr>)
         else if 1 < stg \<and> k + 1 < length (bp ! (stg - 1))
                 \<and> checkOverlap calculatedBubble (bp ! (stg - 1) ! (k + 1)) then
           \<lparr>bubblePos = bp[stg := bp ! stg
                            @ [positionBubble (bp ! stg ! j) (bp ! (stg - 1) ! (k + 1))
                                 nextBubble]],
            stage = stg, last_j = j + 1, pivot_k = k + 1\<rparr>
         else
           \<lparr>bubblePos = bp[stg := bp ! stg @ [calculatedBubble]],
            stage = stg, last_j = j + 1, pivot_k = k\<rparr>)"

fun place_loop :: "packing \<Rightarrow> bubble list \<Rightarrow> packing" where
  "place_loop st [] = st"
| "place_loop st (b # bs) = place_loop (placeStep st (coerce_radius b)) bs"

subsection \<open>resizeRadius\<close>

text \<open>The loop over the positions that collects the bounding box.\<close>

definition bBox_step ::
  "number \<times> number \<times> number \<times> number \<Rightarrow> bubble \<Rightarrow> number \<times> number \<times> number \<times> number" where
  "bBox_step box p =
     (case box of (minX, maxX, minY, maxY) \<Rightarrow>
        (let r = ToNumber (radius p)
         in (Math_min minX (nsub (ToNumber (cx p)) r),
             Math_max maxX (nadd (ToNumber (cx p)) r),
             Math_min minY (nsub (ToNumber (cy p)) r),
             Math_max maxY (nadd (ToNumber (cy p)) r))))"

definition bounds :: "bubble list \<Rightarrow> number \<times> number \<times> number \<times> number" where
  "bounds positions = foldl bBox_step (PInf, NInf, PInf, NInf) positions"

definition smallerDimension :: "chart \<Rightarrow> bubble list \<Rightarrow> number" where
  "smallerDimension ch positions =
     (case bounds positions of (minX, maxX, minY, maxY) \<Rightarrow>
        Math_min (ndiv (nsub (plotWidth ch) (plotLeft ch)) (nsub maxX minX))
                 (ndiv (nsub (plotHeight ch) (plotTop ch)) (nsub maxY minY)))"

text \<open>\<open>positions[i][2] *= smallerDimension\<close>\<close>

definition scale_radius :: "number \<Rightarrow> bubble \<Rightarrow> bubble" where
  "scale_radius factor p = p\<lparr>radius := Some (nmul (ToNumber (radius p)) factor)\<rparr>"

text \<open>
  What resizeRadius does before it either calls placeBubbles again or returns: if the
  bounding box does not fit the plot area, the result is the chart with the rescaled
  bubbles and the array to place again (the bubbles are shared by \<open>rawPositions\<close> and
  \<open>stages\<close>); otherwise it is the chart with the offsets \<open>diffY\<close> and \<open>diffX\<close>.
\<close>

definition resize_step :: "chart \<Rightarrow> chart + chart \<times> bubble list" where
  "resize_step ch =
     (let positions = rawPositions ch;
          sd = smallerDimension ch positions
      in if ngreater (Math_abs (nsub sd (Fin 1))) (Fin (1 / 10 ^ 10)) then
           Inr (ch\<lparr>stages := map (map (scale_radius sd)) (stages ch),
                   rawPositions := map (scale_radius sd) positions\<rparr>,
                map (scale_radius sd) positions)
         else
           (case bounds positions of (minX, maxX, minY, maxY) \<Rightarrow>
              Inl (ch\<lparr>diffY := nsub (nsub (nadd (ndiv (plotHeight ch) (Fin 2)) (plotTop ch)) minY)
                                     (ndiv (nsub maxY minY) (Fin 2)),
                      diffX := nsub (nsub (nadd (ndiv (plotWidth ch) (Fin 2)) (plotLeft ch)) minX)
                                     (ndiv (nsub maxX minX) (Fin 2))\<rparr>)))"

text \<open>An element of the array that placeBubbles returns: a bubble or a plain value.\<close>

datatype element = Bubble bubble | Value jsval

text \<open>
  placeBubbles returns the array of positions, the chart as it has written it, and the
  content of the array \<open>points\<close> it was called on (the source's parameter
  \<open>allDataPoints\<close>), which it sorts and updates in place. It calls
  resizeRadius, which may call placeBubbles again with \<open>chart.rawPositions\<close>; nothing
  bounds the number of these calls, so the result is optional: \<open>None\<close> stands for a
  computation that does not return.
\<close>

partial_function (option) placeBubbles ::
  "chart \<Rightarrow> bubble list \<Rightarrow> (element list \<times> chart \<times> bubble list) option" where
  "placeBubbles ch points =
     (let sortedArr = sort_bubbles points
      in if length sortedArr = 0 then Some ([], ch, sortedArr)
         else if length sortedArr < 2 then
           Some ([Value (Some (Fin 0)), Value (Some (Fin 0)), Value (cx (sortedArr ! 0)),
                  Value (cy (sortedArr ! 0)), Value (radius (sortedArr ! 0))],
                 ch, sortedArr)
         else
           (let placed = place_loop (seed_packing sortedArr) (drop 2 sortedArr);
                sortedArr = take 2 sortedArr @ map coerce_radius (drop 2 sortedArr);
                ch = ch\<lparr>stages := bubblePos placed,
                        rawPositions := concat (bubblePos placed)\<rparr>
            in case resize_step ch of
                 Inl ch \<Rightarrow> Some (map Bubble (rawPositions ch), ch, sortedArr)
               | Inr (ch, positions) \<Rightarrow>
                   Option.bind (placeBubbles ch positions)
                     (\<lambda>(_, ch, _). Some (map Bubble (rawPositions ch), ch, sortedArr))))"

definition resizeRadius :: "chart \<Rightarrow> chart option" where
  "resizeRadius ch =
     (case resize_step ch of
        Inl ch \<Rightarrow> Some ch
      | Inr (ch, positions) \<Rightarrow>
          Option.bind (placeBubbles ch positions) (\<lambda>(_, ch, _). Some ch))"

text \<open>
  The first statements of translate: the merged data of all series, their radii and
  their positions.
\<close>

definition translate_positions ::
  "chart_series list \<Rightarrow> series \<Rightarrow> (element list \<times> series) option" where
  "translate_positions chart_series_list s =
     (let s = getRadius (s\<lparr>allDataPoints := accumulateAllPoints chart_series_list\<rparr>)
      in Option.bind (placeBubbles (chart s) (allDataPoints s))
           (\<lambda>(positions, ch, arr). Some (positions, s\<lparr>chart := ch, allDataPoints := arr\<rparr>)))"

section \<open>Notions for the properties\<close>

text \<open>
  The invariant of the variables of the main loop: \<open>stage\<close> is the last level, \<open>last_j\<close>
  its last bubble and \<open>pivot_k\<close> a bubble of the level before; no level is empty. It
  keeps every array access of the loop body within bounds.
\<close>

definition packing_inv :: "packing \<Rightarrow> bool" where
  "packing_inv st \<longleftrightarrow>
     length (bubblePos st) = stage st + 1 \<and> 1 \<le> stage st
     \<and> last_j st + 1 = length (bubblePos st ! stage st)
     \<and> pivot_k st < length (bubblePos st ! (stage st - 1))
     \<and> [] \<notin> set (bubblePos st)"

text \<open>
  The scale factor as the specification words it, the smaller of
  \<open>usableWidth / bbox.width\<close> and \<open>usableHeight / bbox.height\<close> for the target rectangle,
  and as the comment above resizeRadius words it, "the comparison of bBox and the size of
  plotArea": the plot area has the width \<open>plotWidth\<close> and the height \<open>plotHeight\<close>. This
  definition is not taken from the body of resizeRadius, whose ratio is
  \<open>smallerDimension\<close> above; the two are compared below.
\<close>

definition plotAreaRatio :: "chart \<Rightarrow> bubble list \<Rightarrow> number" where
  "plotAreaRatio ch positions =
     (case bounds positions of (minX, maxX, minY, maxY) \<Rightarrow>
        Math_min (ndiv (plotWidth ch) (nsub maxX minX))
                 (ndiv (plotHeight ch) (nsub maxY minY)))"

text \<open>
  A bubble with a finite centre and a finite (or \<open>null\<close>, taken as 0) radius, and the real
  numbers that its centre and radius are.
\<close>

definition finite_bubble :: "bubble \<Rightarrow> bool" where
  "finite_bubble p \<longleftrightarrow>
     isFinite (ToNumber (cx p)) \<and> isFinite (ToNumber (cy p)) \<and> isFinite (ToNumber (radius p))"

definition bubble_x :: "bubble \<Rightarrow> real" where "bubble_x p = fin_value (ToNumber (cx p))"
definition bubble_y :: "bubble \<Rightarrow> real" where "bubble_y p = fin_value (ToNumber (cy p))"
definition bubble_r :: "bubble \<Rightarrow> real" where "bubble_r p = fin_value (ToNumber (radius p))"

text \<open>A bubble of series 0 with a finite centre and radius, for concrete layouts.\<close>

abbreviation circle :: "real \<Rightarrow> real \<Rightarrow> real \<Rightarrow> real \<Rightarrow> bubble" where
  "circle x y r i \<equiv>
     \<lparr>cx = Some (Fin x), cy = Some (Fin y), radius = Some (Fin r),
      seriesIndex = Some (Fin 0), pointIndex = Some (Fin i)\<rparr>"

text \<open>A bubble of series 0 as accumulateAllPoints creates it, with the value or radius \<open>v\<close>.\<close>

abbreviation point :: "jsval \<Rightarrow> real \<Rightarrow> bubble" where
  "point v i \<equiv>
     \<lparr>cx = None, cy = None, radius = v, seriesIndex = Some (Fin 0), pointIndex = Some (Fin i)\<rparr>"

text \<open>
  The second bubble of a layout whose first bubble has the radius 1 and whose second
  bubble has the radius \<open>null\<close>.
\<close>

abbreviation null_circle :: bubble where
  "null_circle \<equiv> \<lparr>cx = Some (Fin 0), cy = Some (Fin (- 1)), radius = None,
      seriesIndex = Some (Fin 0), pointIndex = Some (Fin 1)\<rparr>"

section \<open>Properties\<close>

subsection \<open>checkOverlap and positionBubble\<close>

lemma checkOverlap_finite:
  "checkOverlap \<lparr>cx = Some (Fin x1), cy = Some (Fin y1), radius = Some (Fin r1),
                  seriesIndex = s1, pointIndex = p1\<rparr>
                \<lparr>cx = Some (Fin x2), cy = Some (Fin y2), radius = Some (Fin r2),
                  seriesIndex = s2, pointIndex = p2\<rparr>
   \<longleftrightarrow> sqrt ((x1 - x2) * (x1 - x2) + (y1 - y2) * (y1 - y2)) - \<bar>r1 + r2\<bar> < - (1 / 1000)"
proof -
  have "\<not> (x1 - x2) * (x1 - x2) + (y1 - y2) * (y1 - y2) < 0"
    by (simp add: not_less)
  then show ?thesis
    by (simp add: checkOverlap_def nsub_def)
qed

lemma abs_le_sqrt_sum: "\<bar>dx\<bar> \<le> sqrt (dx * dx + dy * dy)"
proof -
  have "\<bar>dx\<bar> = sqrt (dx * dx)"
    by simp
  also have "\<dots> \<le> sqrt (dx * dx + dy * dy)"
    by (rule real_sqrt_le_mono) simp
  finally show ?thesis .
qed

lemma sqrt_sum_pos: "dx \<noteq> 0 \<or> dy \<noteq> 0 \<Longrightarrow> 0 < sqrt (dx * dx + dy * dy)"
  by (auto simp: sum_squares_gt_zero_iff)

text \<open>
  On finite values, with lastBubble and newOrigin at distinct centres, a non-zero sum of
  the radii of nextBubble and newOrigin and a cosine-rule quotient within [-1, 1],
  no operation of positionBubble leaves the finite numbers.
\<close>

lemma positionBubble_finite:
  assumes l: "ToNumber (cx lastBubble) = Fin lx" "ToNumber (cy lastBubble) = Fin ly"
             "ToNumber (radius lastBubble) = Fin lr"
    and o: "ToNumber (cx newOrigin) = Fin ox" "ToNumber (cy newOrigin) = Fin oy"
           "ToNumber (radius newOrigin) = Fin orad"
    and n: "ToNumber (radius nextBubble) = Fin nr"
    and distinct: "lx - ox \<noteq> 0 \<or> ly - oy \<noteq> 0"
    and a: "nr + orad \<noteq> 0"
    and q: "\<bar>(sqrt ((lx - ox) * (lx - ox) + (ly - oy) * (ly - oy))
              * sqrt ((lx - ox) * (lx - ox) + (ly - oy) * (ly - oy))
              + (nr + orad) * (nr + orad) - (nr + lr) * (nr + lr))
            / (2 * (nr + orad) * sqrt ((lx - ox) * (lx - ox) + (ly - oy) * (ly - oy)))\<bar> \<le> 1"
  shows "positionBubble lastBubble newOrigin nextBubble =
           \<lparr>cx = Some (Fin (ox + (orad + nr)
                     * sin (finalAngle_of (lx - ox) (ly - oy) (nr + orad) (nr + lr)))),
            cy = Some (Fin (oy - (orad + nr)
                     * cos (finalAngle_of (lx - ox) (ly - oy) (nr + orad) (nr + lr)))),
            radius = radius nextBubble, seriesIndex = seriesIndex nextBubble,
            pointIndex = pointIndex nextBubble\<rparr>"
proof -
  define d where "d = sqrt ((lx - ox) * (lx - ox) + (ly - oy) * (ly - oy))"
  have dpos: "0 < d"
    unfolding d_def using distinct by (rule sqrt_sum_pos)
  have nonneg: "\<not> (lx - ox) * (lx - ox) + (ly - oy) * (ly - oy) < 0"
    by (simp add: not_less)
  have dist: "Math_sqrt (nadd (Math_pow2 (nsub (Fin lx) (Fin ox)))
                              (Math_pow2 (nsub (Fin ly) (Fin oy)))) = Fin d"
    using nonneg by (simp add: Math_pow2_def nsub_def d_def)
  have den: "2 * (nr + orad) * d \<noteq> 0"
    using a dpos by simp
  have q': "- 1 \<le> (d * d + (nr + orad) * (nr + orad) - (nr + lr) * (nr + lr))
                    / (2 * (nr + orad) * d)
          \<and> (d * d + (nr + orad) * (nr + orad) - (nr + lr) * (nr + lr))
                    / (2 * (nr + orad) * d) \<le> 1"
    using q unfolding d_def [symmetric] by linarith
  have alfa: "Math_acos
                (ndiv (nsub (nadd (Math_pow2 (Fin d)) (Math_pow2 (nadd (Fin nr) (Fin orad))))
                            (Math_pow2 (nadd (Fin nr) (Fin lr))))
                      (nmul (nmul (Fin 2) (nadd (Fin nr) (Fin orad))) (Fin d)))
              = Fin (arccos ((d * d + (nr + orad) * (nr + orad) - (nr + lr) * (nr + lr))
                             / (2 * (nr + orad) * d)))"
    using den q' by (simp add: Math_pow2_def nsub_def)
  have "\<bar>lx - ox\<bar> \<le> d"
    unfolding d_def by (rule abs_le_sqrt_sum)
  with dpos have "- 1 \<le> \<bar>lx - ox\<bar> / d \<and> \<bar>lx - ox\<bar> / d \<le> 1"
    by (simp add: divide_le_eq le_divide_eq)
  with dpos have beta: "Math_asin (ndiv (Math_abs (nsub (Fin lx) (Fin ox))) (Fin d))
                       = Fin (arcsin (\<bar>lx - ox\<bar> / d))"
    by (simp add: nsub_def)
  show ?thesis
    unfolding positionBubble_def Let_def l o n dist alfa beta
    by (simp add: nsub_def finalAngle_of_def d_def [symmetric] Let_def)
qed

lemma finalAngle_sin_cos:
  fixes dx dy a b d c s :: real
  assumes d: "0 < d" "d * d = dx * dx + dy * dy"
    and c: "c = (d * d + a * a - b * b) / (2 * a * d)" "\<bar>c\<bar> \<le> 1"
    and s: "0 \<le> s" "s * s + c * c = 1"
    and edge: "dy \<noteq> 0 \<or> 0 \<le> dx"
  shows "sin (finalAngle_of dx dy a b) = (dx * c - dy * s) / d"
    and "cos (finalAngle_of dx dy a b) = - (dy * c + dx * s) / d"
proof -
  have dsq: "sqrt (dx * dx + dy * dy) = d"
    using d by (metis abs_of_pos real_sqrt_abs2)
  define al where "al = arccos c"
  define be where "be = arcsin (\<bar>dx\<bar> / d)"
  have cal: "cos al = c"
    unfolding al_def using c(2) by (intro cos_arccos) linarith+
  have "sin al = sqrt (1 - c\<^sup>2)"
    unfolding al_def using c(2) by (intro sin_arccos) linarith+
  also have "1 - c\<^sup>2 = s * s"
    using s(2) by (simp add: power2_eq_square)
  finally have sal: "sin al = s"
    using s(1) by simp
  have "\<bar>dx\<bar> \<le> d"
    using abs_le_sqrt_sum [of dx dy] dsq by simp
  then have r: "- 1 \<le> \<bar>dx\<bar> / d" "\<bar>dx\<bar> / d \<le> 1"
    using d(1) by (simp_all add: divide_le_eq le_divide_eq)
  have sbe: "sin be = \<bar>dx\<bar> / d"
    unfolding be_def using r by (intro sin_arcsin)
  have "cos be = sqrt (1 - (\<bar>dx\<bar> / d)\<^sup>2)"
    unfolding be_def using r by (intro cos_arcsin)
  also have "1 - (\<bar>dx\<bar> / d)\<^sup>2 = (d * d - dx * dx) / (d * d)"
    using d(1) by (simp add: power2_eq_square diff_divide_distrib)
  also have "\<dots> = dy * dy / (d * d)"
    by (simp add: d(2))
  also have "\<dots> = (dy / d)\<^sup>2"
    by (simp add: power2_eq_square)
  finally have cbe: "cos be = \<bar>dy\<bar> / d"
    using d(1) by (simp add: real_sqrt_abs)
  have fa: "finalAngle_of dx dy a b
            = (if dy < 0 then 0 else pi) + al + be * (if dx * dy < 0 then 1 else - 1)"
    unfolding finalAngle_of_def Let_def dsq al_def be_def c(1) ..
  consider (up) "dy < 0" "0 < dx" | (up') "dy < 0" "dx \<le> 0"
    | (down) "0 < dy" "dx < 0" | (down') "0 < dy" "0 \<le> dx" | (flat) "dy = 0" "0 \<le> dx"
    using edge by linarith
  then have "sin (finalAngle_of dx dy a b) = (dx * c - dy * s) / d
           \<and> cos (finalAngle_of dx dy a b) = - (dy * c + dx * s) / d"
  proof cases
    case up
    then have "dx * dy < 0"
      by (simp add: mult_pos_neg)
    with up d(1) show ?thesis
      by (simp add: fa sin_add cos_add cal sal sbe cbe field_simps)
  next
    case up'
    then have "\<not> dx * dy < 0"
      by (simp add: not_less mult_nonpos_nonpos)
    with up' d(1) show ?thesis
      by (simp add: fa sin_diff cos_diff cal sal sbe cbe field_simps)
  next
    case down
    then have "dx * dy < 0"
      by (simp add: mult_neg_pos)
    with down d(1) show ?thesis
      by (simp add: fa sin_add cos_add cal sal sbe cbe field_simps)
  next
    case down'
    then have "\<not> dx * dy < 0"
      by (simp add: not_less)
    with down' d(1) show ?thesis
      by (simp add: fa sin_add cos_add sin_diff cos_diff cal sal sbe cbe field_simps)
  next
    case flat
    then have "\<not> dy < 0" and "\<not> dx * dy < 0"
      by simp_all
    then have ang: "finalAngle_of dx dy a b = pi + al - be"
      unfolding fa by simp
    have cbe0: "cos be = 0"
      using cbe flat by simp
    have sbe1: "sin be = dx / d"
      using sbe flat by simp
    show ?thesis
      unfolding ang using flat(1) d(1)
      by (simp add: sin_add cos_add sin_diff cos_diff cal sal sbe1 cbe0 field_simps)
  qed
  then show "sin (finalAngle_of dx dy a b) = (dx * c - dy * s) / d"
    and "cos (finalAngle_of dx dy a b) = - (dy * c + dx * s) / d"
    by simp_all
qed


lemma positionBubble_rotation:
  assumes l: "ToNumber (cx lastBubble) = Fin lx" "ToNumber (cy lastBubble) = Fin ly"
             "ToNumber (radius lastBubble) = Fin lr"
    and o: "ToNumber (cx newOrigin) = Fin ox" "ToNumber (cy newOrigin) = Fin oy"
           "ToNumber (radius newOrigin) = Fin orad"
    and n: "ToNumber (radius nextBubble) = Fin nr"
    and d: "0 < d" "d * d = (lx - ox) * (lx - ox) + (ly - oy) * (ly - oy)"
    and a: "nr + orad \<noteq> 0"
    and c: "c = (d * d + (nr + orad) * (nr + orad) - (nr + lr) * (nr + lr))
                / (2 * (nr + orad) * d)" "\<bar>c\<bar> \<le> 1"
    and s: "0 \<le> s" "s * s + c * c = 1"
    and edge: "ly - oy \<noteq> 0 \<or> 0 \<le> lx - ox"
  shows "positionBubble lastBubble newOrigin nextBubble =
           \<lparr>cx = Some (Fin (ox + (orad + nr) * (((lx - ox) * c - (ly - oy) * s) / d))),
            cy = Some (Fin (oy + (orad + nr) * (((ly - oy) * c + (lx - ox) * s) / d))),
            radius = radius nextBubble, seriesIndex = seriesIndex nextBubble,
            pointIndex = pointIndex nextBubble\<rparr>"
proof -
  have dsq: "sqrt ((lx - ox) * (lx - ox) + (ly - oy) * (ly - oy)) = d"
    using d by (metis abs_of_pos real_sqrt_abs2)
  have distinct: "lx - ox \<noteq> 0 \<or> ly - oy \<noteq> 0"
    using d by auto
  have q: "\<bar>(sqrt ((lx - ox) * (lx - ox) + (ly - oy) * (ly - oy))
              * sqrt ((lx - ox) * (lx - ox) + (ly - oy) * (ly - oy))
              + (nr + orad) * (nr + orad) - (nr + lr) * (nr + lr))
            / (2 * (nr + orad) * sqrt ((lx - ox) * (lx - ox) + (ly - oy) * (ly - oy)))\<bar> \<le> 1"
    unfolding dsq using c by simp
  note sc = finalAngle_sin_cos [OF d c s edge]
  show ?thesis
    unfolding positionBubble_finite [OF l o n distinct a q] sc
    using d(1) by (simp add: field_simps)
qed

lemma sqrt_less_iff_square:
  fixes X t :: real
  assumes "0 \<le> X"
  shows "sqrt X < t \<longleftrightarrow> 0 < t \<and> X < t * t"
proof (cases "0 < t")
  case True
  then have "sqrt X < t \<longleftrightarrow> sqrt X < sqrt (t * t)"
    by simp
  also have "\<dots> \<longleftrightarrow> X < t * t"
    by (rule real_sqrt_less_iff)
  finally show ?thesis
    using True by simp
next
  case False
  have "0 \<le> sqrt X"
    using assms by simp
  with False show ?thesis
    by linarith
qed

lemma checkOverlap_squared:
  assumes "ToNumber (cx b1) = Fin x1" "ToNumber (cy b1) = Fin y1" "ToNumber (radius b1) = Fin r1"
    and "ToNumber (cx b2) = Fin x2" "ToNumber (cy b2) = Fin y2" "ToNumber (radius b2) = Fin r2"
  shows "checkOverlap b1 b2 \<longleftrightarrow>
           1 / 1000 < \<bar>r1 + r2\<bar>
         \<and> (x1 - x2) * (x1 - x2) + (y1 - y2) * (y1 - y2)
             < (\<bar>r1 + r2\<bar> - 1 / 1000) * (\<bar>r1 + r2\<bar> - 1 / 1000)"
proof -
  define X where "X = (x1 - x2) * (x1 - x2) + (y1 - y2) * (y1 - y2)"
  have X: "0 \<le> X"
    unfolding X_def by simp
  then have "\<not> X < 0"
    by simp
  then have "checkOverlap b1 b2 \<longleftrightarrow> sqrt X - \<bar>r1 + r2\<bar> < - (1 / 1000)"
    unfolding checkOverlap_def Let_def assms by (simp add: nsub_def X_def)
  also have "\<dots> \<longleftrightarrow> sqrt X < \<bar>r1 + r2\<bar> - 1 / 1000"
    by linarith
  also have "\<dots> \<longleftrightarrow> 0 < \<bar>r1 + r2\<bar> - 1 / 1000
                       \<and> X < (\<bar>r1 + r2\<bar> - 1 / 1000) * (\<bar>r1 + r2\<bar> - 1 / 1000)"
    by (rule sqrt_less_iff_square [OF X])
  finally show ?thesis
    unfolding X_def by simp
qed

text \<open>
  In the exact arithmetic, for circles with finite centres and non-negative radii,
  checkOverlap is true exactly when the distance of the centres minus the sum of the radii
  is below -1/1000.
\<close>

lemma checkOverlap_exact_distance:
  assumes "0 \<le> r1" and "0 \<le> r2"
  shows "(checkOverlap \<lparr>cx = Some (Fin x1), cy = Some (Fin y1), radius = Some (Fin r1),
                         seriesIndex = s1, pointIndex = p1\<rparr>
                       \<lparr>cx = Some (Fin x2), cy = Some (Fin y2), radius = Some (Fin r2),
                         seriesIndex = s2, pointIndex = p2\<rparr>
          \<longleftrightarrow> sqrt ((x1 - x2)\<^sup>2 + (y1 - y2)\<^sup>2) - (r1 + r2) < - (1 / 1000))
       \<and> (sqrt ((x1 - x2)\<^sup>2 + (y1 - y2)\<^sup>2) = r1 + r2 \<longrightarrow>
            \<not> checkOverlap \<lparr>cx = Some (Fin x1), cy = Some (Fin y1), radius = Some (Fin r1),
                              seriesIndex = s1, pointIndex = p1\<rparr>
                            \<lparr>cx = Some (Fin x2), cy = Some (Fin y2), radius = Some (Fin r2),
                              seriesIndex = s2, pointIndex = p2\<rparr>)"
proof -
  from assms have "\<bar>r1 + r2\<bar> = r1 + r2"
    by simp
  then show ?thesis
    by (simp add: checkOverlap_finite power2_eq_square)
qed

subsection \<open>checkOverlap in binary64 arithmetic\<close>

lemma binade_eq:
  assumes "2 powi e \<le> \<bar>x\<bar>" and "\<bar>x\<bar> < 2 powi (e + 1)" and "- 1022 \<le> e"
  shows "binade x = e"
proof -
  have "(0::real) < 2 powi e"
    by simp
  with assms(1) have pos: "0 < \<bar>x\<bar>"
    by linarith
  have "2 powr real_of_int e \<le> \<bar>x\<bar>" "\<bar>x\<bar> < 2 powr real_of_int (e + 1)"
    using assms(1,2) by (simp_all only: powr_real_of_int' [of 2, simplified])
  with pos have "\<lfloor>log 2 \<bar>x\<bar>\<rfloor> = e"
    by (simp add: floor_log_eq_powr_iff)
  with assms(3) show ?thesis
    by (simp add: binade_def)
qed

lemma round_ties_even_eq:
  assumes "\<bar>q - of_int n\<bar> < 1 / 2"
  shows "round_ties_even q = n"
proof -
  consider "of_int n \<le> q" | "q < of_int n"
    by linarith
  then show ?thesis
  proof cases
    case 1
    with assms have "\<lfloor>q\<rfloor> = n"
      by (intro floor_unique) linarith+
    with assms 1 show ?thesis
      by (simp add: round_ties_even_def)
  next
    case 2
    have "of_int (n - 1) \<le> q"
      using assms 2 by (simp; linarith)
    moreover have "q < of_int (n - 1) + 1"
      using 2 by simp
    ultimately have f: "\<lfloor>q\<rfloor> = n - 1"
      by (rule floor_unique)
    have "1 / 2 < q - of_int (n - 1)"
      using assms 2 by (simp; linarith)
    with f show ?thesis
      by (simp add: round_ties_even_def Let_def)
  qed
qed

lemma round_ties_even_tie:
  assumes "q = of_int f + 1 / 2" and "even f"
  shows "round_ties_even q = f"
proof -
  have "\<lfloor>q\<rfloor> = f"
    unfolding assms(1) by (intro floor_unique) simp_all
  with assms show ?thesis
    by (simp add: round_ties_even_def)
qed

lemma fl_round:
  assumes "2 powi e \<le> \<bar>x\<bar>" and "\<bar>x\<bar> < 2 powi (e + 1)" and "- 1022 \<le> e"
    and "round_ties_even (x / 2 powi (e - 52)) = n"
    and "\<bar>of_int n * 2 powi (e - 52)\<bar> < (2::real) ^ 1024"
  shows "fl x = Fin (of_int n * 2 powi (e - 52))"
proof -
  have "(0::real) < 2 powi e"
    by simp
  with assms(1) have "0 < \<bar>x\<bar>"
    by linarith
  then have nz: "x \<noteq> 0"
    by simp
  have b: "binade x = e"
    using assms(1-3) by (rule binade_eq)
  show ?thesis
    using nz assms(5) by (simp add: fl_def ulp_def b assms(4) Let_def del: power_int_diff)
qed

lemma threshold_binary64:
  "fl (- (1 / 1000)) = Fin (- (1152921504606847 / 1152921504606846976))"
  by (subst fl_round [where e = "- 10" and n = "- 4611686018427388"])
    (simp_all add: round_ties_even_eq [where n = "- 4611686018427388"])

lemma round_ties_even_error: "\<bar>of_int (round_ties_even q) - q\<bar> \<le> 1 / 2"
proof -
  have "of_int \<lfloor>q\<rfloor> \<le> q" "q < of_int \<lfloor>q\<rfloor> + 1"
    by linarith+
  then show ?thesis
    by (auto simp: round_ties_even_def Let_def)
qed

lemma round_ties_even_nonneg:
  assumes "0 \<le> q"
  shows "0 \<le> round_ties_even q"
proof -
  from assms have "0 \<le> \<lfloor>q\<rfloor>"
    by simp
  then show ?thesis
    by (auto simp: round_ties_even_def Let_def)
qed

lemma ulp_pos: "0 < ulp x"
  by (simp add: ulp_def)

lemma ulp_le:
  assumes "x \<noteq> 0"
  shows "ulp x \<le> \<bar>x\<bar> / 2 ^ 52 + 2 powi (- 1074)"
proof (cases "- 1022 \<le> \<lfloor>log 2 \<bar>x\<bar>\<rfloor>")
  case True
  then have b: "binade x = \<lfloor>log 2 \<bar>x\<bar>\<rfloor>"
    by (simp add: binade_def)
  from assms have pos: "0 < \<bar>x\<bar>"
    by simp
  have "2 powr real_of_int \<lfloor>log 2 \<bar>x\<bar>\<rfloor> \<le> 2 powr log 2 \<bar>x\<bar>"
    by (intro powr_mono) simp_all
  also have "\<dots> = \<bar>x\<bar>"
    using pos by simp
  finally have le: "2 powi \<lfloor>log 2 \<bar>x\<bar>\<rfloor> \<le> \<bar>x\<bar>"
    by (simp add: powr_real_of_int')
  have "ulp x = 2 powi \<lfloor>log 2 \<bar>x\<bar>\<rfloor> / 2 ^ 52"
    unfolding ulp_def b by (simp add: power_int_diff)
  also have "\<dots> \<le> \<bar>x\<bar> / 2 ^ 52"
    using le by (simp add: divide_right_mono)
  also have "\<dots> \<le> \<bar>x\<bar> / 2 ^ 52 + 2 powi (- 1074)"
    by simp
  finally show ?thesis .
next
  case False
  then have "binade x = - 1022"
    by (auto simp: binade_def)
  then have "ulp x = 2 powi (- 1074)"
    by (simp add: ulp_def)
  then show ?thesis
    by simp
qed

lemma fl_near:
  assumes "\<bar>x\<bar> \<le> 10 ^ 30"
  shows "\<exists>y. fl x = Fin y \<and> \<bar>y - x\<bar> \<le> \<bar>x\<bar> / 10 ^ 15 + 1 / 10 ^ 300 \<and> (0 \<le> x \<longrightarrow> 0 \<le> y)"
proof (cases "x = 0")
  case True
  then show ?thesis
    by (simp add: fl_def)
next
  case False
  define n where "n = round_ties_even (x / ulp x)"
  define y where "y = of_int n * ulp x"
  have up: "0 < ulp x"
    by (rule ulp_pos)
  have "\<bar>of_int n - x / ulp x\<bar> \<le> 1 / 2"
    unfolding n_def by (rule round_ties_even_error)
  then have "\<bar>of_int n - x / ulp x\<bar> * ulp x \<le> 1 / 2 * ulp x"
    using up by (intro mult_right_mono) simp_all
  moreover have "\<bar>of_int n - x / ulp x\<bar> * ulp x = \<bar>(of_int n - x / ulp x) * ulp x\<bar>"
    using up by (simp add: abs_mult)
  moreover have "(of_int n - x / ulp x) * ulp x = y - x"
    using up by (simp add: y_def left_diff_distrib)
  ultimately have err: "\<bar>y - x\<bar> \<le> ulp x / 2"
    by simp
  have tiny: "(2::real) powi (- 1074) / 2 \<le> 1 / 10 ^ 300"
    by (simp add: power_int_minus divide_simps)
  have "ulp x / 2 \<le> (\<bar>x\<bar> / 2 ^ 52 + 2 powi (- 1074)) / 2"
    using ulp_le [OF False] by simp
  also have "\<dots> = \<bar>x\<bar> / 2 ^ 53 + 2 powi (- 1074) / 2"
    by (simp add: add_divide_distrib)
  also have "\<dots> \<le> \<bar>x\<bar> / 10 ^ 15 + 1 / 10 ^ 300"
  proof (rule add_mono)
    show "\<bar>x\<bar> / 2 ^ 53 \<le> \<bar>x\<bar> / 10 ^ 15"
      by (intro divide_left_mono) simp_all
    show "(2::real) powi (- 1074) / 2 \<le> 1 / 10 ^ 300"
      by (rule tiny)
  qed
  finally have u: "ulp x / 2 \<le> \<bar>x\<bar> / 10 ^ 15 + 1 / 10 ^ 300" .
  with err have near: "\<bar>y - x\<bar> \<le> \<bar>x\<bar> / 10 ^ 15 + 1 / 10 ^ 300"
    by linarith
  have "\<bar>x\<bar> / 10 ^ 15 + 1 / 10 ^ 300 \<le> (10::real) ^ 30"
  proof -
    have "\<bar>x\<bar> / 10 ^ 15 \<le> 10 ^ 30 / 10 ^ 15"
      using assms by (intro divide_right_mono) simp_all
    then show ?thesis
      by simp
  qed
  with near assms have "\<bar>y\<bar> \<le> 2 * 10 ^ 30"
    by linarith
  moreover have "(2::real) * 10 ^ 30 < 2 ^ 1024"
    by simp
  ultimately have fin: "\<not> 2 ^ 1024 \<le> \<bar>y\<bar>"
    by linarith
  have val: "fl x = Fin y"
    using False fin by (simp add: fl_def Let_def y_def n_def)
  have "0 \<le> y" if "0 \<le> x"
  proof -
    from that up have "0 \<le> x / ulp x"
      by simp
    then have "0 \<le> n"
      unfolding n_def by (rule round_ties_even_nonneg)
    with up show ?thesis
      by (simp add: y_def)
  qed
  with val near show ?thesis
    by blast
qed

lemma fl_near_bounded:
  assumes "\<bar>x\<bar> \<le> 100000000000000"
  shows "\<exists>y. fl x = Fin y \<and> \<bar>y - x\<bar> \<le> \<bar>x\<bar> / 1000000000000000 + 1 / 1000000000000000000000000000000 \<and> (0 \<le> x \<longrightarrow> 0 \<le> y)"
proof -
  from assms have "\<bar>x\<bar> \<le> 10 ^ 30"
    by simp
  then obtain y where y: "fl x = Fin y" "\<bar>y - x\<bar> \<le> \<bar>x\<bar> / 10 ^ 15 + 1 / 10 ^ 300"
    "0 \<le> x \<longrightarrow> 0 \<le> y"
    using fl_near [of x] by blast
  have "(1::real) / 10 ^ 300 \<le> 1 / 10 ^ 30"
    by (intro divide_left_mono power_increasing) simp_all
  with y(2) have "\<bar>y - x\<bar> \<le> \<bar>x\<bar> / 10 ^ 15 + 1 / 10 ^ 30"
    by linarith
  then have "\<bar>y - x\<bar> \<le> \<bar>x\<bar> / 1000000000000000 + 1 / 1000000000000000000000000000000"
    by simp
  with y(1,3) show ?thesis
    by blast
qed

lemma square_near:
  fixes A a :: real
  assumes "\<bar>a\<bar> \<le> \<bar>A\<bar> / 1000000000000000 + 1 / 1000000000000000000000000000000" and "\<bar>A\<bar> \<le> 2000000"
  shows "\<bar>(A + a) * (A + a) - A * A\<bar> \<le> 3 * (A * A) / 1000000000000000 + 1 / 100000000000000000000"
proof -
  define t where "t = \<bar>A\<bar> / 1000000000000000 + 1 / 1000000000000000000000000000000"
  have t0: "0 \<le> t"
    by (simp add: t_def)
  have AA: "\<bar>A\<bar> * \<bar>A\<bar> = A * A"
    by simp
  have "\<bar>A * a\<bar> = \<bar>A\<bar> * \<bar>a\<bar>"
    by (rule abs_mult)
  also have "\<dots> \<le> \<bar>A\<bar> * t"
    using assms(1) unfolding t_def by (intro mult_left_mono) simp_all
  also have "\<dots> = A * A / 1000000000000000 + \<bar>A\<bar> / 1000000000000000000000000000000"
    unfolding t_def by (simp add: distrib_left AA [symmetric] del: abs_mult_self_eq)
  finally have cross: "\<bar>A * a\<bar> \<le> A * A / 1000000000000000 + \<bar>A\<bar> / 1000000000000000000000000000000" .
  have "a * a = \<bar>a\<bar> * \<bar>a\<bar>"
    by simp
  also have "\<dots> \<le> t * t"
    using assms(1) unfolding t_def by (intro mult_mono) simp_all
  also have "\<dots> = A * A / 1000000000000000000000000000000 + 2 * \<bar>A\<bar> / 1000000000000000000000000000000000000000000000 + 1 / 1000000000000000000000000000000000000000000000000000000000000"
    unfolding t_def by (simp add: algebra_simps AA [symmetric] del: abs_mult_self_eq)
  finally have sq: "a * a \<le> A * A / 1000000000000000000000000000000 + 2 * \<bar>A\<bar> / 1000000000000000000000000000000000000000000000 + 1 / 1000000000000000000000000000000000000000000000000000000000000" .
  have a0: "0 \<le> a * a" and A0: "0 \<le> A * A"
    by simp_all
  have "(A + a) * (A + a) - A * A = 2 * (A * a) + a * a"
    by (simp add: algebra_simps)
  then have "\<bar>(A + a) * (A + a) - A * A\<bar> \<le> 2 * \<bar>A * a\<bar> + a * a"
    using a0 by linarith
  with cross sq A0 assms(2) show ?thesis
    by linarith
qed

lemma sqrt_perturb:
  fixes S D t u :: real
  assumes "0 \<le> D" and "0 \<le> S" and "\<bar>S - D\<bar> \<le> t * D + u"
    and "0 \<le> t" and "t \<le> 1" and "0 \<le> u"
  shows "\<bar>sqrt S - sqrt D\<bar> \<le> t * sqrt D + sqrt u"
proof -
  have "S \<le> D * (1 + t) + u"
    using assms(3) by (simp add: algebra_simps abs_le_iff)
  then have "sqrt S \<le> sqrt (D * (1 + t) + u)"
    by simp
  also have "\<dots> \<le> sqrt (D * (1 + t)) + sqrt u"
    using assms by (intro sqrt_add_le_add_sqrt) simp_all
  also have "sqrt (D * (1 + t)) = sqrt D * sqrt (1 + t)"
    by (rule real_sqrt_mult)
  also have "sqrt D * sqrt (1 + t) \<le> sqrt D * (1 + t)"
  proof (rule mult_left_mono)
    have "1 + t \<le> (1 + t) * (1 + t)"
      using assms(4) by (simp add: algebra_simps)
    then have "sqrt (1 + t) \<le> sqrt ((1 + t) * (1 + t))"
      by (rule real_sqrt_le_mono)
    also have "\<dots> = 1 + t"
      using assms(4) by simp
    finally show "sqrt (1 + t) \<le> 1 + t" .
    show "0 \<le> sqrt D"
      using assms(1) by simp
  qed
  finally have upper: "sqrt S \<le> sqrt D * (1 + t) + sqrt u"
    by simp
  have "D * (1 - t) \<le> S + u"
    using assms(3) by (simp add: algebra_simps abs_le_iff)
  then have "sqrt (D * (1 - t)) \<le> sqrt (S + u)"
    by simp
  also have "\<dots> \<le> sqrt S + sqrt u"
    using assms by (intro sqrt_add_le_add_sqrt) simp_all
  finally have low: "sqrt D * sqrt (1 - t) \<le> sqrt S + sqrt u"
    by (simp add: real_sqrt_mult)
  have "sqrt D * (1 - t) \<le> sqrt D * sqrt (1 - t)"
  proof (rule mult_left_mono)
    have "(1 - t) * (1 - t) \<le> 1 * (1 - t)"
      using assms(4,5) by (intro mult_right_mono) simp_all
    then have "sqrt ((1 - t) * (1 - t)) \<le> sqrt (1 * (1 - t))"
      by (rule real_sqrt_le_mono)
    moreover have "sqrt ((1 - t) * (1 - t)) = \<bar>1 - t\<bar>"
      by simp
    ultimately show "1 - t \<le> sqrt (1 - t)"
      using assms(5) by simp
    show "0 \<le> sqrt D"
      using assms(1) by simp
  qed
  with low have lower: "sqrt D * (1 - t) \<le> sqrt S + sqrt u"
    by linarith
  from upper lower show ?thesis
    by (simp add: algebra_simps abs_le_iff)
qed

lemma square_le:
  fixes A :: real
  assumes "\<bar>A\<bar> \<le> 2000000"
  shows "A * A \<le> 4000000000000"
proof -
  have "\<bar>A\<bar> * \<bar>A\<bar> \<le> 2000000 * 2000000"
    using assms by (intro mult_mono) simp_all
  then show ?thesis
    by simp
qed

lemma rounded_square:
  fixes A A' :: real
  assumes "\<bar>A\<bar> \<le> 2000000" and "\<bar>A' - A\<bar> \<le> \<bar>A\<bar> / 1000000000000000 + 1 / 1000000000000000000000000000000"
  shows "\<exists>P. fl (A' * A') = Fin P \<and> 0 \<le> P
             \<and> \<bar>P - A * A\<bar> \<le> 5 * (A * A) / 1000000000000000 + 3 / 100000000000000000000"
proof -
  have A0: "0 \<le> A * A"
    by simp
  have A1: "A * A \<le> 4000000000000"
    using assms(1) by (rule square_le)
  have "\<bar>(A + (A' - A)) * (A + (A' - A)) - A * A\<bar> \<le> 3 * (A * A) / 1000000000000000 + 1 / 100000000000000000000"
    using assms(2,1) by (rule square_near)
  then have sq: "\<bar>A' * A' - A * A\<bar> \<le> 3 * (A * A) / 1000000000000000 + 1 / 100000000000000000000"
    by simp
  have P0: "0 \<le> A' * A'"
    by simp
  with sq A0 A1 have "\<bar>A' * A'\<bar> \<le> 100000000000000"
    by linarith
  then obtain P where P: "fl (A' * A') = Fin P"
    "\<bar>P - A' * A'\<bar> \<le> \<bar>A' * A'\<bar> / 1000000000000000 + 1 / 1000000000000000000000000000000" "0 \<le> A' * A' \<longrightarrow> 0 \<le> P"
    using fl_near_bounded [of "A' * A'"] by blast
  from P(3) have "0 \<le> P"
    by simp
  moreover from P(2) sq A0 A1 P0 have "\<bar>P - A * A\<bar> \<le> 5 * (A * A) / 1000000000000000 + 3 / 100000000000000000000"
    by linarith
  ultimately show ?thesis
    using P(1) by blast
qed

lemma rounded_distance:
  fixes A B A' B' :: real
  assumes "\<bar>A\<bar> \<le> 2000000" and "\<bar>A' - A\<bar> \<le> \<bar>A\<bar> / 1000000000000000 + 1 / 1000000000000000000000000000000"
    and "\<bar>B\<bar> \<le> 2000000" and "\<bar>B' - B\<bar> \<le> \<bar>B\<bar> / 1000000000000000 + 1 / 1000000000000000000000000000000"
  shows "\<exists>s. binary64 (Math_sqrt (binary64 (nadd (fl (A' * A')) (fl (B' * B'))))) = Fin s
             \<and> \<bar>s - sqrt (A * A + B * B)\<bar> \<le> 1 / 10000000 \<and> \<bar>s\<bar> \<le> 4000000"
proof -
  define D where "D = A * A + B * B"
  obtain P where P: "fl (A' * A') = Fin P" "0 \<le> P"
    "\<bar>P - A * A\<bar> \<le> 5 * (A * A) / 1000000000000000 + 3 / 100000000000000000000"
    using rounded_square [OF assms(1,2)] by blast
  obtain Q where Q: "fl (B' * B') = Fin Q" "0 \<le> Q"
    "\<bar>Q - B * B\<bar> \<le> 5 * (B * B) / 1000000000000000 + 3 / 100000000000000000000"
    using rounded_square [OF assms(3,4)] by blast
  have A0: "0 \<le> A * A" and B0: "0 \<le> B * B"
    by simp_all
  have A1: "A * A \<le> 4000000000000" and B1: "B * B \<le> 4000000000000"
    using assms(1,3) by (simp_all only: square_le)
  have D0: "0 \<le> D" and D1: "D \<le> 8000000000000"
    using A0 B0 A1 B1 by (simp_all add: D_def)
  define a2 where "a2 = A * A"
  define b2 where "b2 = B * B"
  have "\<bar>P + Q - (a2 + b2)\<bar> \<le> 5 * (a2 + b2) / 1000000000000000 + 6 / 100000000000000000000"
    using P(3) Q(3) unfolding a2_def [symmetric] b2_def [symmetric]
    by argo
  then have PQ: "\<bar>P + Q - D\<bar> \<le> 5 * D / 1000000000000000 + 6 / 100000000000000000000"
    by (simp only: a2_def b2_def D_def)
  with D0 D1 P(2) Q(2) have "\<bar>P + Q\<bar> \<le> 100000000000000"
    by linarith
  then obtain S where S: "fl (P + Q) = Fin S"
    "\<bar>S - (P + Q)\<bar> \<le> \<bar>P + Q\<bar> / 1000000000000000 + 1 / 1000000000000000000000000000000" "0 \<le> P + Q \<longrightarrow> 0 \<le> S"
    using fl_near_bounded [of "P + Q"] by blast
  from S(3) P(2) Q(2) have S0: "0 \<le> S"
    by simp
  have SD: "\<bar>S - D\<bar> \<le> 8 / 1000000000000000 * D + 1 / 10000000000000000000"
    using S(2) PQ D0 D1 P(2) Q(2) by argo
  have "\<bar>sqrt S - sqrt D\<bar> \<le> 8 / 1000000000000000 * sqrt D + sqrt (1 / 10000000000000000000)"
    using D0 S0 SD by (rule sqrt_perturb) simp_all
  moreover have "sqrt (1 / 10000000000000000000) \<le> (1::real) / 1000000000"
    by (rule real_le_lsqrt) (simp_all add: power2_eq_square)
  moreover have dle: "sqrt D \<le> 3000000"
    using D1 by (intro real_le_lsqrt) (simp_all add: power2_eq_square)
  moreover have dge: "0 \<le> sqrt D"
    using D0 by simp
  ultimately have sS: "\<bar>sqrt S - sqrt D\<bar> \<le> 3 / 100000000"
    by linarith
  have sS0: "0 \<le> sqrt S"
    using S0 by simp
  with sS dle have "\<bar>sqrt S\<bar> \<le> 100000000000000"
    by linarith
  then obtain s where s: "fl (sqrt S) = Fin s"
    "\<bar>s - sqrt S\<bar> \<le> \<bar>sqrt S\<bar> / 1000000000000000 + 1 / 1000000000000000000000000000000"
    using fl_near_bounded [of "sqrt S"] by blast
  have near: "\<bar>s - sqrt D\<bar> \<le> 1 / 10000000"
    using s(2) sS sS0 dle dge by linarith
  then have size: "\<bar>s\<bar> \<le> 4000000"
    using dle dge by linarith
  have "binary64 (Math_sqrt (binary64 (nadd (fl (A' * A')) (fl (B' * B'))))) = Fin s"
    using S0 by (simp add: P(1) Q(1) S(1) s(1) not_less)
  with near size show ?thesis
    unfolding D_def by blast
qed

lemma threshold_bounds:
  "- (1001 / 1000000) < - (1152921504606847 / 1152921504606846976 :: real)"
  "- (1152921504606847 / 1152921504606846976 :: real) < - (999 / 1000000)"
  by simp_all

lemma checkOverlap_binary64_near:
  fixes x1 y1 r1 x2 y2 r2 :: real
  assumes "\<bar>x1\<bar> \<le> 1000000" and "\<bar>y1\<bar> \<le> 1000000" and "0 \<le> r1" and "r1 \<le> 1000000"
    and "\<bar>x2\<bar> \<le> 1000000" and "\<bar>y2\<bar> \<le> 1000000" and "0 \<le> r2" and "r2 \<le> 1000000"
  shows "\<exists>v. \<bar>v - (sqrt ((x1 - x2) * (x1 - x2) + (y1 - y2) * (y1 - y2)) - (r1 + r2))\<bar>
               \<le> 1 / 1000000
           \<and> (checkOverlap_binary64
                 \<lparr>cx = Some (Fin x1), cy = Some (Fin y1), radius = Some (Fin r1),
                  seriesIndex = s1, pointIndex = p1\<rparr>
                 \<lparr>cx = Some (Fin x2), cy = Some (Fin y2), radius = Some (Fin r2),
                  seriesIndex = s2, pointIndex = p2\<rparr>
                \<longleftrightarrow> v < - (1152921504606847 / 1152921504606846976))"
proof -
  define A where "A = x1 - x2"
  define B where "B = y1 - y2"
  define R where "R = r1 + r2"
  have A: "\<bar>A\<bar> \<le> 2000000" and B: "\<bar>B\<bar> \<le> 2000000" and R: "0 \<le> R" "R \<le> 2000000"
    using assms unfolding A_def B_def R_def by linarith+
  from A have "\<bar>A\<bar> \<le> 100000000000000"
    by linarith
  then obtain A' where A': "fl A = Fin A'" "\<bar>A' - A\<bar> \<le> \<bar>A\<bar> / 1000000000000000 + 1 / 1000000000000000000000000000000"
    using fl_near_bounded [of A] by blast
  from B have "\<bar>B\<bar> \<le> 100000000000000"
    by linarith
  then obtain B' where B': "fl B = Fin B'" "\<bar>B' - B\<bar> \<le> \<bar>B\<bar> / 1000000000000000 + 1 / 1000000000000000000000000000000"
    using fl_near_bounded [of B] by blast
  from R have "\<bar>R\<bar> \<le> 100000000000000"
    by linarith
  then obtain R' where R': "fl R = Fin R'" "\<bar>R' - R\<bar> \<le> \<bar>R\<bar> / 1000000000000000 + 1 / 1000000000000000000000000000000"
    "0 \<le> R \<longrightarrow> 0 \<le> R'"
    using fl_near_bounded [of R] by blast
  from R'(3) R(1) have R'0: "0 \<le> R'"
    by simp
  obtain s where s: "binary64 (Math_sqrt (binary64 (nadd (fl (A' * A')) (fl (B' * B'))))) = Fin s"
    "\<bar>s - sqrt (A * A + B * B)\<bar> \<le> 1 / 10000000" "\<bar>s\<bar> \<le> 4000000"
    using rounded_distance [OF A A'(2) B B'(2)] by blast
  have "\<bar>s - R'\<bar> \<le> 100000000000000"
    using s(3) R'(2) R by linarith
  then obtain v where v: "fl (s - R') = Fin v"
    "\<bar>v - (s - R')\<bar> \<le> \<bar>s - R'\<bar> / 1000000000000000 + 1 / 1000000000000000000000000000000"
    using fl_near_bounded [of "s - R'"] by blast
  define d where "d = sqrt (A * A + B * B)"
  have RR: "\<bar>R' - R\<bar> \<le> 1 / 10000000"
    using R'(2) R by linarith
  have "\<bar>s - R'\<bar> \<le> 10000000"
    using s(3) RR R by linarith
  then have sR: "\<bar>s - R'\<bar> / 1000000000000000 + 1 / 1000000000000000000000000000000 \<le> 1 / 10000000"
    by argo
  with v(2) have vs: "\<bar>v - (s - R')\<bar> \<le> 1 / 10000000"
    by linarith
  have "\<bar>v - (d - R)\<bar> \<le> 1 / 1000000"
    using vs s(2) RR unfolding d_def [symmetric] by argo
  then have near: "\<bar>v - (sqrt (A * A + B * B) - R)\<bar> \<le> 1 / 1000000"
    by (simp only: d_def)
  have "checkOverlap_binary64
                 \<lparr>cx = Some (Fin x1), cy = Some (Fin y1), radius = Some (Fin r1),
                  seriesIndex = s1, pointIndex = p1\<rparr>
                 \<lparr>cx = Some (Fin x2), cy = Some (Fin y2), radius = Some (Fin r2),
                  seriesIndex = s2, pointIndex = p2\<rparr>
                \<longleftrightarrow> v < - (1152921504606847 / 1152921504606846976)"
    unfolding checkOverlap_binary64_def Let_def
    using R'0
    by (simp add: nsub_def A_def [symmetric] B_def [symmetric] R_def [symmetric]
        A'(1) B'(1) R'(1) s(1) v(1) threshold_binary64)
  with near show ?thesis
    unfolding A_def B_def R_def by blast
qed

text \<open>
  Claim C7, as amended. For circles whose centre coordinates have an absolute value of at
  most 10^6 and whose radii lie between 0 and 10^6, checkOverlap as computed in binary64
  returns true whenever the distance of the centres minus the sum of the radii is at most
  -0.001002, and false whenever it is at least -0.000998. In particular two circles that
  are exactly tangent (the distance of the centres equals the sum of the radii) are
  reported as not overlapping. Between the two bounds the rounding of the operations and
  of the literal decides.
\<close>

theorem checkOverlap_binary64_tolerance:
  fixes x1 y1 r1 x2 y2 r2 :: real
  defines "d \<equiv> sqrt ((x1 - x2)\<^sup>2 + (y1 - y2)\<^sup>2)"
  assumes "\<bar>x1\<bar> \<le> 10 ^ 6" and "\<bar>y1\<bar> \<le> 10 ^ 6" and "0 \<le> r1" and "r1 \<le> 10 ^ 6"
    and "\<bar>x2\<bar> \<le> 10 ^ 6" and "\<bar>y2\<bar> \<le> 10 ^ 6" and "0 \<le> r2" and "r2 \<le> 10 ^ 6"
  shows "(d - (r1 + r2) \<le> - (1002 / 10 ^ 6) \<longrightarrow>
            checkOverlap_binary64
              \<lparr>cx = Some (Fin x1), cy = Some (Fin y1), radius = Some (Fin r1),
               seriesIndex = s1, pointIndex = p1\<rparr>
              \<lparr>cx = Some (Fin x2), cy = Some (Fin y2), radius = Some (Fin r2),
               seriesIndex = s2, pointIndex = p2\<rparr>)
       \<and> (- (998 / 10 ^ 6) \<le> d - (r1 + r2) \<longrightarrow>
            \<not> checkOverlap_binary64
              \<lparr>cx = Some (Fin x1), cy = Some (Fin y1), radius = Some (Fin r1),
               seriesIndex = s1, pointIndex = p1\<rparr>
              \<lparr>cx = Some (Fin x2), cy = Some (Fin y2), radius = Some (Fin r2),
               seriesIndex = s2, pointIndex = p2\<rparr>)
       \<and> (d = r1 + r2 \<longrightarrow>
            \<not> checkOverlap_binary64
              \<lparr>cx = Some (Fin x1), cy = Some (Fin y1), radius = Some (Fin r1),
               seriesIndex = s1, pointIndex = p1\<rparr>
              \<lparr>cx = Some (Fin x2), cy = Some (Fin y2), radius = Some (Fin r2),
               seriesIndex = s2, pointIndex = p2\<rparr>)"
proof -
  have b: "\<bar>x1\<bar> \<le> 1000000" "\<bar>y1\<bar> \<le> 1000000" "0 \<le> r1" "r1 \<le> 1000000"
    "\<bar>x2\<bar> \<le> 1000000" "\<bar>y2\<bar> \<le> 1000000" "0 \<le> r2" "r2 \<le> 1000000"
    using assms(2-9) by simp_all
  have d: "d = sqrt ((x1 - x2) * (x1 - x2) + (y1 - y2) * (y1 - y2))"
    by (simp add: d_def power2_eq_square)
  obtain v where v: "\<bar>v - (d - (r1 + r2))\<bar> \<le> 1 / 1000000"
    and c: "checkOverlap_binary64
              \<lparr>cx = Some (Fin x1), cy = Some (Fin y1), radius = Some (Fin r1),
               seriesIndex = s1, pointIndex = p1\<rparr>
              \<lparr>cx = Some (Fin x2), cy = Some (Fin y2), radius = Some (Fin r2),
               seriesIndex = s2, pointIndex = p2\<rparr>
            \<longleftrightarrow> v < - (1152921504606847 / 1152921504606846976)"
    unfolding d using checkOverlap_binary64_near [OF b, of s1 p1 s2 p2] by blast
  note t = threshold_bounds
  have lo: "v < - (1152921504606847 / 1152921504606846976)"
    if "d - (r1 + r2) \<le> - (1002 / 1000000)"
    using that v t by argo
  have hi: "\<not> v < - (1152921504606847 / 1152921504606846976)"
    if "- (998 / 1000000) \<le> d - (r1 + r2)"
    using that v t by argo
  have tangent: "\<not> v < - (1152921504606847 / 1152921504606846976)" if "d = r1 + r2"
    using that hi by simp
  from lo hi tangent show ?thesis
    unfolding c by simp
qed

theorem checkOverlap_binary64_tolerance_witness:
  "sqrt (((0::real) - 2)\<^sup>2 + (0 - 0)\<^sup>2) = 1 + 1
   \<and> \<not> checkOverlap_binary64
         \<lparr>cx = Some (Fin 0), cy = Some (Fin 0), radius = Some (Fin 1),
          seriesIndex = Some (Fin 0), pointIndex = Some (Fin 0)\<rparr>
         \<lparr>cx = Some (Fin 2), cy = Some (Fin 0), radius = Some (Fin 1),
          seriesIndex = Some (Fin 0), pointIndex = Some (Fin 1)\<rparr>
   \<and> sqrt (((0::real) - 0)\<^sup>2 + (0 - 0)\<^sup>2) - (1 + 1) \<le> - (1002 / 10 ^ 6)
   \<and> checkOverlap_binary64
         \<lparr>cx = Some (Fin 0), cy = Some (Fin 0), radius = Some (Fin 1),
          seriesIndex = Some (Fin 0), pointIndex = Some (Fin 0)\<rparr>
         \<lparr>cx = Some (Fin 0), cy = Some (Fin 0), radius = Some (Fin 1),
          seriesIndex = Some (Fin 0), pointIndex = Some (Fin 1)\<rparr>"
  using checkOverlap_binary64_tolerance [where ?r1.0 = 1 and ?r2.0 = 1 and ?x1.0 = 0 and ?y1.0 = 0
          and ?x2.0 = 2 and ?y2.0 = 0 and ?s1.0 = "Some (Fin 0)" and ?p1.0 = "Some (Fin 0)"
          and ?s2.0 = "Some (Fin 0)" and ?p2.0 = "Some (Fin 1)"]
        checkOverlap_binary64_tolerance [where ?r1.0 = 1 and ?r2.0 = 1 and ?x1.0 = 0 and ?y1.0 = 0
          and ?x2.0 = 0 and ?y2.0 = 0 and ?s1.0 = "Some (Fin 0)" and ?p1.0 = "Some (Fin 0)"
          and ?s2.0 = "Some (Fin 0)" and ?p2.0 = "Some (Fin 1)"]
  by simp

lemma tangent_diffX: "fl (- 38739075953976) = Fin (- 38739075953976)"
  by (subst fl_round [where e = 45 and n = "- 4958601722108928"])
    (simp_all add: round_ties_even_eq [where n = "- 4958601722108928"])

lemma tangent_diffY: "fl (- 51652101271968) = Fin (- 51652101271968)"
  by (subst fl_round [where e = 45 and n = "- 6611468962811904"])
    (simp_all add: round_ties_even_eq [where n = "- 6611468962811904"])

lemma tangent_sumRad: "fl 64565126589960 = Fin 64565126589960"
  by (subst fl_round [where e = 45 and n = 8264336203514880])
    (simp_all add: round_ties_even_eq [where n = 8264336203514880])

lemma tangent_squareX:
  "fl 1500716005767921534470208576 = Fin 1500716005767921425251827712"
  by (subst fl_round [where e = 90 and n = 5459573024447023])
    (simp_all add: round_ties_even_eq [where n = 5459573024447023])

lemma tangent_squareY:
  "fl 2667939565809638283502593024 = Fin 2667939565809638150420561920"
  by (subst fl_round [where e = 91 and n = 4852953799508465])
    (simp_all add: round_ties_even_eq [where n = 4852953799508465])

lemma tangent_sum:
  "fl 4168655571577559575672389632 = Fin 4168655571577559300794482688"
  by (subst fl_round [where e = 91 and n = 7582740311731976])
    (simp_all add: round_ties_even_tie [where f = 7582740311731976])

lemma tangent_sqrt:
  "fl (sqrt 4168655571577559300794482688) = Fin (8264336203514879 / 128)"
proof -
  define r where "r = sqrt 4168655571577559300794482688"
  have r0: "0 \<le> r"
    by (simp add: r_def)
  have sq: "r * r = 4168655571577559300794482688"
    by (simp add: r_def)
  have lo: "(8264336203514879 - 1 / 2) / 128 < r"
  proof (rule ccontr)
    assume "\<not> (8264336203514879 - 1 / 2) / 128 < r"
    then have "r \<le> (8264336203514879 - 1 / 2) / 128"
      by simp
    with r0 have "r * r \<le> (8264336203514879 - 1 / 2) / 128 * ((8264336203514879 - 1 / 2) / 128)"
      by (intro mult_mono) simp_all
    then show False
      unfolding sq by simp
  qed
  have hi: "r < (8264336203514879 + 1 / 2) / 128"
  proof (rule ccontr)
    assume "\<not> r < (8264336203514879 + 1 / 2) / 128"
    then have "(8264336203514879 + 1 / 2) / 128 \<le> r"
      by simp
    then have "(8264336203514879 + 1 / 2) / 128 * ((8264336203514879 + 1 / 2) / 128) \<le> r * r"
      by (intro mult_mono) simp_all
    then show False
      unfolding sq by simp
  qed
  have "r * 128 - 8264336203514879 < 1 / 2" and "- (1 / 2) < r * 128 - 8264336203514879"
    using lo hi by simp_all
  then have "\<bar>r * 128 - 8264336203514879\<bar> < 1 / 2"
    by linarith
  then have rnd: "round_ties_even (r / 2 powi (45 - 52)) = 8264336203514879"
    by (intro round_ties_even_eq) simp
  have "fl r = Fin (of_int 8264336203514879 * 2 powi (45 - 52))"
    using lo hi rnd by (intro fl_round) simp_all
  then show ?thesis
    by (simp add: r_def)
qed

lemma tangent_diff: "fl (- (1 / 128)) = Fin (- (1 / 128))"
  by (subst fl_round [where e = "- 7" and n = "- 4503599627370496"])
    (simp_all add: round_ties_even_eq [where n = "- 4503599627370496"])

text \<open>
  The claim as stated, for all finite centres and non-negative radii, fails in binary64.
  The circles of radius 25826050635984 at (0, 0) and of radius 38739075953976 at
  (38739075953976, 51652101271968) are exactly tangent: the distance of the centres and
  the sum of the radii are both 64565126589960. The squares and their sum are rounded, the
  rounded square root is 64565126589960 - 1/128, and checkOverlap returns true, since
  -1/128 is less than -0.001.
\<close>

theorem checkOverlap_tangent_counterexample:
  "checkOverlap_binary64
     \<lparr>cx = Some (Fin 0), cy = Some (Fin 0), radius = Some (Fin 25826050635984),
      seriesIndex = Some (Fin 0), pointIndex = Some (Fin 0)\<rparr>
     \<lparr>cx = Some (Fin 38739075953976), cy = Some (Fin 51652101271968),
      radius = Some (Fin 38739075953976), seriesIndex = Some (Fin 0),
      pointIndex = Some (Fin 1)\<rparr>
   \<and> sqrt ((0 - 38739075953976)\<^sup>2 + (0 - 51652101271968)\<^sup>2)
       = (25826050635984::real) + 38739075953976"
proof -
  have "sqrt ((0 - 38739075953976)\<^sup>2 + (0 - 51652101271968)\<^sup>2)
        = sqrt ((64565126589960::real)\<^sup>2)"
    by simp
  then have tangent: "sqrt ((0 - 38739075953976)\<^sup>2 + (0 - 51652101271968)\<^sup>2)
       = (25826050635984::real) + 38739075953976"
    by (simp only: real_sqrt_abs abs_numeral) (simp; fail)?
  have "checkOverlap_binary64
     \<lparr>cx = Some (Fin 0), cy = Some (Fin 0), radius = Some (Fin 25826050635984),
      seriesIndex = Some (Fin 0), pointIndex = Some (Fin 0)\<rparr>
     \<lparr>cx = Some (Fin 38739075953976), cy = Some (Fin 51652101271968),
      radius = Some (Fin 38739075953976), seriesIndex = Some (Fin 0),
      pointIndex = Some (Fin 1)\<rparr>"
    by (simp add: checkOverlap_binary64_def nsub_def tangent_diffX tangent_diffY tangent_sumRad
        tangent_squareX tangent_squareY tangent_sum tangent_sqrt tangent_diff threshold_binary64)
  with tangent show ?thesis
    by (rule conjI [rotated])
qed

lemma cosine_quotient_bounded:
  fixes a b d :: real
  assumes "0 < a" and "0 < d" and "\<bar>d - a\<bar> \<le> \<bar>b\<bar>" and "\<bar>b\<bar> \<le> d + a"
  shows "\<bar>(d * d + a * a - b * b) / (2 * a * d)\<bar> \<le> 1"
proof -
  have lo: "(d - a) * (d - a) \<le> b * b"
    using assms(3) abs_le_square_iff [of "d - a" b] by (simp add: power2_eq_square)
  have "\<bar>b\<bar> \<le> \<bar>d + a\<bar>"
    using assms by simp
  then have hi: "b * b \<le> (d + a) * (d + a)"
    using abs_le_square_iff [of b "d + a"] by (simp add: power2_eq_square)
  have "\<bar>d * d + a * a - b * b\<bar> \<le> 2 * a * d"
    using lo hi by (simp add: abs_le_iff algebra_simps)
  moreover have "0 < 2 * a * d"
    using assms by simp
  ultimately show ?thesis
    by (simp add: divide_le_eq)
qed




subsection \<open>getRadius\<close>

lemma pointRadius_below:
  "v \<noteq> 0 \<Longrightarrow> v < mn \<Longrightarrow>
   pointRadius (Fin mn) (Fin mx) sba (Some (Fin v)) = Some (Fin (mn - 1))"
  by (simp add: pointRadius_def nsub_def)

lemma pointRadius_range:
  assumes "v \<noteq> 0" and "mn \<le> v" and "mn < mx"
  shows "pointRadius (Fin mn) (Fin mx) sba (Some (Fin v))
   = Some (Fin (of_int \<lceil>mn + (if sba then sqrt ((v - mn) / (mx - mn)) else (v - mn) / (mx - mn))
                             * (mx - mn)\<rceil> / 2))"
proof -
  show ?thesis
    using assms
    by (simp add: pointRadius_def nsub_def ngreater_def ngeq_def Let_def not_less
        divide_less_0_iff)
qed

lemma pointRadius_no_range:
  "v \<noteq> 0 \<Longrightarrow> mn \<le> v \<Longrightarrow> mx \<le> mn \<Longrightarrow>
   pointRadius (Fin mn) (Fin mx) sba (Some (Fin v))
   = Some (Fin (of_int \<lceil>mn + (if sba then sqrt (1 / 2) else 1 / 2) * (mx - mn)\<rceil> / 2))"
  by (simp add: pointRadius_def nsub_def ngreater_def ngeq_def Let_def not_less)









text \<open>
  Within each branch of getRadius the radius is monotone in the value: it grows with the
  values from the minimum size on, and it is the same for all values below it.
\<close>

lemma pointRadius_monotone_from_minimum:
  assumes "v1 \<noteq> 0" and "v2 \<noteq> 0" and "mn \<le> v1" and "v1 < v2" and "mn \<le> mx"
  shows "\<exists>r1 r2. pointRadius (Fin mn) (Fin mx) sba (Some (Fin v1)) = Some (Fin r1)
                \<and> pointRadius (Fin mn) (Fin mx) sba (Some (Fin v2)) = Some (Fin r2)
                \<and> r1 \<le> r2"
proof (cases "mn < mx")
  case True
  define p where "p v = (if sba then sqrt ((v - mn) / (mx - mn)) else (v - mn) / (mx - mn))"
    for v
  have "(v1 - mn) / (mx - mn) \<le> (v2 - mn) / (mx - mn)"
    using assms True by (simp add: divide_right_mono)
  then have "p v1 \<le> p v2"
    by (simp add: p_def)
  then have "mn + p v1 * (mx - mn) \<le> mn + p v2 * (mx - mn)"
    using True by (simp add: mult_right_mono)
  then have "\<lceil>mn + p v1 * (mx - mn)\<rceil> \<le> \<lceil>mn + p v2 * (mx - mn)\<rceil>"
    by (rule ceiling_mono)
  then have "(of_int \<lceil>mn + p v1 * (mx - mn)\<rceil> :: real) / 2
             \<le> of_int \<lceil>mn + p v2 * (mx - mn)\<rceil> / 2"
    by simp
  moreover have "pointRadius (Fin mn) (Fin mx) sba (Some (Fin v1))
                 = Some (Fin (of_int \<lceil>mn + p v1 * (mx - mn)\<rceil> / 2))"
    unfolding p_def using assms True by (intro pointRadius_range) simp_all
  moreover have "pointRadius (Fin mn) (Fin mx) sba (Some (Fin v2))
                 = Some (Fin (of_int \<lceil>mn + p v2 * (mx - mn)\<rceil> / 2))"
    unfolding p_def using assms True by (intro pointRadius_range) simp_all
  ultimately show ?thesis
    by blast
next
  case False
  with assms have le: "mx \<le> mn" and v2: "mn \<le> v2"
    by simp_all
  define r where "r = (of_int \<lceil>mn + (if sba then sqrt (1 / 2) else 1 / 2) * (mx - mn)\<rceil> :: real) / 2"
  have "pointRadius (Fin mn) (Fin mx) sba (Some (Fin v1)) = Some (Fin r)"
    unfolding r_def using assms(1,3) le by (rule pointRadius_no_range)
  moreover have "pointRadius (Fin mn) (Fin mx) sba (Some (Fin v2)) = Some (Fin r)"
    unfolding r_def using assms(2) v2 le by (rule pointRadius_no_range)
  ultimately show ?thesis
    by blast
qed

lemma pointRadius_constant_below_minimum:
  assumes "v1 \<noteq> 0" and "v2 \<noteq> 0" and "v1 < mn" and "v2 < mn"
  shows "pointRadius (Fin mn) (Fin mx) sba (Some (Fin v1))
         = pointRadius (Fin mn) (Fin mx) sba (Some (Fin v2))"
  using assms by (simp add: pointRadius_below)

text \<open>
  Claim C5. For two items with non-null, non-zero values, the smaller value should get
  the smaller or the same radius, also across the boundary between the values below the
  minimum size and the values from it on. getRadius breaks this at the boundary: with the
  default sizes (\<open>parseInt\<close> of '10%' and '100%' gives 10 and 100) the value 5 gets the
  radius 9 and the larger value 10 the radius 5.
\<close>

theorem getRadius_boundary_not_monotone:
  "map radius (allDataPoints (getRadius
       \<lparr>chart = fresh_chart (Fin 0) (Fin 0) (Fin 400) (Fin 400), minPointSize = Fin 10,
        maxPointSize = Fin 100, sizeBy = ''radius'',
        allDataPoints = accumulateAllPoints
          [\<lparr>visible = True, processedYData = [Some (Fin 5), Some (Fin 10)],
            index = Fin 0\<rparr>],
        radii = []\<rparr>))
   = [Some (Fin 9), Some (Fin 5)]"
  by (simp add: getRadius_def extremes_def isPercent_def accumulateAllPoints_def
      pointRadius_def nsub_def ngreater_def ngeq_def Let_def)

subsection \<open>The degenerate populations\<close>

lemma placeBubbles_empty: "placeBubbles ch [] = Some ([], ch, [])"
  by (subst placeBubbles.simps) (simp add: sort_bubbles_def)

lemma placeBubbles_single:
  "placeBubbles ch [b] =
     Some ([Value (Some (Fin 0)), Value (Some (Fin 0)), Value (cx b), Value (cy b),
            Value (radius b)], ch, [b])"
  by (subst placeBubbles.simps) (simp add: sort_bubbles_def)

text \<open>
  Claim C4. For the empty population placeBubbles returns the empty array, and for a
  single item it should return exactly one circle at (0, 0) that carries the radius and
  the series and point index of the item. The first part holds. For the single item with
  the value 10 and the sizes 5 and 50 (radius 10), however, placeBubbles returns the flat
  array \<open>[0, 0, null, null, 10]\<close> of five plain values, built from the slots 0, 1 and 2
  of the item.
\<close>

theorem translate_single_item_flat:
  "map_option fst (translate_positions []
     \<lparr>chart = fresh_chart (Fin 0) (Fin 0) (Fin 400) (Fin 400), minPointSize = Fin 5,
      maxPointSize = Fin 50, sizeBy = ''radius'', allDataPoints = [], radii = []\<rparr>)
   = Some []
   \<and> map_option fst (translate_positions
     [\<lparr>visible = True, processedYData = [Some (Fin 10)], index = Fin 0\<rparr>]
     \<lparr>chart = fresh_chart (Fin 0) (Fin 0) (Fin 400) (Fin 400), minPointSize = Fin 5,
      maxPointSize = Fin 50, sizeBy = ''radius'', allDataPoints = [], radii = []\<rparr>)
   = Some [Value (Some (Fin 0)), Value (Some (Fin 0)), Value None, Value None,
           Value (Some (Fin 10))]"
proof -
  have "pointRadius (Fin 5) (Fin 50) True (Some (Fin 10)) = Some (Fin 10)"
    by (simp add: pointRadius_def nsub_def ngreater_def ngeq_def real_sqrt_divide)
  then show ?thesis
    by (simp add: translate_positions_def getRadius_def accumulateAllPoints_def Let_def
        extremes_def isPercent_def placeBubbles_single placeBubbles_empty)
qed

subsection \<open>The main loop of placeBubbles\<close>

lemma packing_inv_seed: "packing_inv (seed_packing sortedArr)"
  by (simp add: packing_inv_def seed_packing_def)

lemma packing_inv_step:
  assumes "packing_inv st"
  shows "packing_inv (placeStep st b)"
proof -
  define bp where "bp = bubblePos st"
  define n where "n = stage st"
  from assms have len: "length bp = n + 1" and n1: "1 \<le> n"
    and j: "last_j st + 1 = length (bp ! n)"
    and k: "pivot_k st < length (bp ! (n - 1))"
    and ne: "[] \<notin> set bp"
    by (simp_all add: packing_inv_def bp_def n_def)
  have new_ring: "(bp @ [[]])[Suc n := (bp @ [[]]) ! Suc n @ [c]] = bp @ [[c]]" for c
    using len by (simp add: nth_append list_update_append)
  have new_ring': "(bp @ [[]])[Suc n := [c]] = bp @ [[c]]" for c
    using len by (simp add: list_update_append)
  have cur: "bp ! n \<noteq> []"
    using ne len by (metis less_add_one nth_mem)
  have ne': "[] \<notin> set (bp[n := bp ! n @ [c]])" for c
    using ne by (auto dest!: set_update_subset_insert [THEN subsetD])
  have prev: "bp[n := r] ! (n - 1) = bp ! (n - 1)" for r
    using n1 by simp
  show ?thesis
    unfolding placeStep_def Let_def bp_def [symmetric] n_def [symmetric]
    using len n1 j k ne cur ne' prev
    by (simp add: packing_inv_def new_ring new_ring' nth_append)
qed

lemma packing_inv_loop: "packing_inv st \<Longrightarrow> packing_inv (place_loop st bs)"
  by (induction bs arbitrary: st) (simp_all add: packing_inv_step)

lemma place_loop_append: "place_loop st (as @ bs) = place_loop (place_loop st as) bs"
  by (induction as arbitrary: st) simp_all

lemma place_loop_snoc:
  "place_loop st (bs @ [b]) = placeStep (place_loop st bs) (coerce_radius b)"
  by (simp add: place_loop_append)

text \<open>
  Claim C8. The main loop of placeBubbles starts, after the two seeds, in the state
  \<open>seed_packing sortedArr\<close>, which satisfies the invariant \<open>packing_inv\<close>, and runs
  over the circles \<open>drop 2 sortedArr\<close>. From any state \<open>st0\<close> that satisfies the
  invariant, let \<open>st\<close> be the state of the loop after the first \<open>i\<close> circles and
  \<open>st'\<close> the state after circle \<open>i\<close>. If the candidate position of circle \<open>i\<close> overlaps
  the first bubble of the current level, then \<open>st'\<close> has a new level that holds the
  candidate recomputed around that first bubble, and \<open>k\<close> and \<open>j\<close> are reset to 0,
  whether or not the candidate overlaps the next pivot of the previous level: the
  ring-closing check comes first. The pivot is advanced exactly when the candidate does
  not overlap the first bubble of the current level, \<open>stage > 1\<close>, the previous level
  has a next pivot, and the candidate overlaps it.
\<close>

theorem ring_closing_precedes_pivot_advance:
  fixes st0 :: packing and circles :: "bubble list" and i :: nat
  defines "st \<equiv> place_loop st0 (take i circles)"
  defines "st' \<equiv> place_loop st0 (take (i + 1) circles)"
  defines "bp \<equiv> bubblePos st"
  defines "nextBubble \<equiv> coerce_radius (circles ! i)"
  defines "calculatedBubble \<equiv>
             positionBubble (bp ! stage st ! last_j st) (bp ! (stage st - 1) ! pivot_k st)
               nextBubble"
  assumes "packing_inv st0" and "i < length circles"
  shows "packing_inv (seed_packing sortedArr)
       \<and> (checkOverlap calculatedBubble (bp ! stage st ! 0) \<longrightarrow>
            st' =
              \<lparr>bubblePos = bp @ [[positionBubble (bp ! stage st ! last_j st)
                                     (bp ! stage st ! 0) nextBubble]],
               stage = stage st + 1, last_j = 0, pivot_k = 0\<rparr>)
       \<and> (pivot_k st' = pivot_k st + 1 \<longleftrightarrow>
            \<not> checkOverlap calculatedBubble (bp ! stage st ! 0)
            \<and> 1 < stage st \<and> pivot_k st + 1 < length (bp ! (stage st - 1))
            \<and> checkOverlap calculatedBubble (bp ! (stage st - 1) ! (pivot_k st + 1)))"
proof -
  have "packing_inv st"
    unfolding st_def using assms(6) by (rule packing_inv_loop)
  then have len: "length bp = stage st + 1"
    by (simp add: packing_inv_def bp_def)
  have new_ring: "(bp @ [[]])[Suc (stage st) := (bp @ [[]]) ! Suc (stage st) @ [b]] = bp @ [[b]]"
    for b
    using len by (simp add: nth_append list_update_append)
  have "take (i + 1) circles = take i circles @ [circles ! i]"
    using assms(7) by (simp add: take_Suc_conv_app_nth)
  then have step: "st' = placeStep st nextBubble"
    unfolding st'_def st_def nextBubble_def by (simp only: place_loop_snoc)
  have seed: "packing_inv (seed_packing sortedArr)"
    by (rule packing_inv_seed)
  have branches: "(checkOverlap calculatedBubble (bp ! stage st ! 0) \<longrightarrow>
            placeStep st nextBubble =
              \<lparr>bubblePos = bp @ [[positionBubble (bp ! stage st ! last_j st)
                                     (bp ! stage st ! 0) nextBubble]],
               stage = stage st + 1, last_j = 0, pivot_k = 0\<rparr>)
       \<and> (pivot_k (placeStep st nextBubble) = pivot_k st + 1 \<longleftrightarrow>
            \<not> checkOverlap calculatedBubble (bp ! stage st ! 0)
            \<and> 1 < stage st \<and> pivot_k st + 1 < length (bp ! (stage st - 1))
            \<and> checkOverlap calculatedBubble (bp ! (stage st - 1) ! (pivot_k st + 1)))"
    unfolding placeStep_def Let_def bp_def [symmetric] calculatedBubble_def [symmetric]
    by (simp add: new_ring)
  from seed branches show ?thesis
    unfolding step by (intro conjI) simp_all
qed

text \<open>
  A state of the loop at level 2 in which both checks apply. The levels are a bubble of
  radius 1/12 at (0, 0); the bubbles of radius 1/12 at (0, -1/6), the pivot, and at
  (-1/2, -1/6), the next pivot; and the unit bubble at (0, -5/4), which touches the pivot.
  The first of two circles with the radius \<open>null\<close> is placed at (10/13, 31/52), beside
  the unit bubble and around the pivot. The candidate for the second, (-2380/2197,
  -1385/8788), overlaps the unit bubble, the first of the level, and the next pivot: a new
  level is started and the pivot is not advanced.
\<close>

lemma ring_pos_l:
  "positionBubble (circle 0 (- (5 / 4)) 1 3) (circle 0 (- (1 / 6)) (1 / 12) 1)
     (point (Some (Fin 1)) 4) = circle (10 / 13) (31 / 52) 1 4"
  by (subst positionBubble_rotation [where lx = 0 and ly = "- (5 / 4)" and lr = 1
        and ox = 0 and oy = "- (1 / 6)" and orad = "1 / 12" and nr = 1
        and d = "13 / 12" and c = "- (119 / 169)" and s = "120 / 169"]) simp_all

lemma ring_pos_candidate:
  "positionBubble (circle (10 / 13) (31 / 52) 1 4) (circle 0 (- (1 / 6)) (1 / 12) 1)
     (point (Some (Fin 1)) 5) = circle (- (2380 / 2197)) (- (1385 / 8788)) 1 5"
  by (subst positionBubble_rotation [where lx = "10 / 13" and ly = "31 / 52" and lr = 1
        and ox = 0 and oy = "- (1 / 6)" and orad = "1 / 12" and nr = 1
        and d = "13 / 12" and c = "- (119 / 169)" and s = "120 / 169"]) simp_all

lemma ring_pos_new:
  "positionBubble (circle (10 / 13) (31 / 52) 1 4) (circle 0 (- (5 / 4)) 1 3)
     (point (Some (Fin 1)) 5)
   = circle (5 / 13 - 12 * sqrt 3 / 13) (5 * sqrt 3 / 13 - 17 / 52) 1 5"
  by (subst positionBubble_rotation [where lx = "10 / 13" and ly = "31 / 52" and lr = 1
        and ox = 0 and oy = "- (5 / 4)" and orad = 1 and nr = 1
        and d = 2 and c = "1 / 2" and s = "sqrt 3 / 2"]) (simp_all add: field_simps)

lemma ring_overlaps:
  "\<not> checkOverlap (circle (10 / 13) (31 / 52) 1 4) (circle 0 (- (5 / 4)) 1 3)"
  "\<not> checkOverlap (circle (10 / 13) (31 / 52) 1 4) (circle (- (1 / 2)) (- (1 / 6)) (1 / 12) 2)"
  "checkOverlap (circle (- (2380 / 2197)) (- (1385 / 8788)) 1 5) (circle 0 (- (5 / 4)) 1 3)"
  "checkOverlap (circle (- (2380 / 2197)) (- (1385 / 8788)) 1 5)
     (circle (- (1 / 2)) (- (1 / 6)) (1 / 12) 2)"
     apply (subst checkOverlap_squared [where ?x1.0 = "10 / 13" and ?y1.0 = "31 / 52"
          and ?r1.0 = 1 and ?x2.0 = 0 and ?y2.0 = "- (5 / 4)" and ?r2.0 = 1]; simp)
    apply (subst checkOverlap_squared [where ?x1.0 = "10 / 13" and ?y1.0 = "31 / 52"
          and ?r1.0 = 1 and ?x2.0 = "- (1 / 2)" and ?y2.0 = "- (1 / 6)" and ?r2.0 = "1 / 12"]; simp)
   apply (subst checkOverlap_squared [where ?x1.0 = "- (2380 / 2197)" and ?y1.0 = "- (1385 / 8788)"
          and ?r1.0 = 1 and ?x2.0 = 0 and ?y2.0 = "- (5 / 4)" and ?r2.0 = 1]; simp)
  apply (subst checkOverlap_squared [where ?x1.0 = "- (2380 / 2197)" and ?y1.0 = "- (1385 / 8788)"
          and ?r1.0 = 1 and ?x2.0 = "- (1 / 2)" and ?y2.0 = "- (1 / 6)" and ?r2.0 = "1 / 12"]; simp)
  done

lemma ring_first_step:
  "place_loop
     \<lparr>bubblePos = [[circle 0 0 (1 / 12) 0],
                   [circle 0 (- (1 / 6)) (1 / 12) 1, circle (- (1 / 2)) (- (1 / 6)) (1 / 12) 2],
                   [circle 0 (- (5 / 4)) 1 3]],
      stage = 2, last_j = 0, pivot_k = 0\<rparr>
     [point None 4]
   = \<lparr>bubblePos = [[circle 0 0 (1 / 12) 0],
                   [circle 0 (- (1 / 6)) (1 / 12) 1, circle (- (1 / 2)) (- (1 / 6)) (1 / 12) 2],
                   [circle 0 (- (5 / 4)) 1 3, circle (10 / 13) (31 / 52) 1 4]],
      stage = 2, last_j = 1, pivot_k = 0\<rparr>"
  by (simp add: placeStep_def coerce_radius_def or_one_def falsy_def ring_pos_l ring_overlaps)

theorem ring_closing_precedes_pivot_advance_witness:
  "packing_inv
     \<lparr>bubblePos = [[circle 0 0 (1 / 12) 0],
                   [circle 0 (- (1 / 6)) (1 / 12) 1, circle (- (1 / 2)) (- (1 / 6)) (1 / 12) 2],
                   [circle 0 (- (5 / 4)) 1 3]],
      stage = 2, last_j = 0, pivot_k = 0\<rparr>
   \<and> place_loop
     \<lparr>bubblePos = [[circle 0 0 (1 / 12) 0],
                   [circle 0 (- (1 / 6)) (1 / 12) 1, circle (- (1 / 2)) (- (1 / 6)) (1 / 12) 2],
                   [circle 0 (- (5 / 4)) 1 3]],
      stage = 2, last_j = 0, pivot_k = 0\<rparr>
     (take 1 [point None 4, point None 5])
   = \<lparr>bubblePos = [[circle 0 0 (1 / 12) 0],
                   [circle 0 (- (1 / 6)) (1 / 12) 1, circle (- (1 / 2)) (- (1 / 6)) (1 / 12) 2],
                   [circle 0 (- (5 / 4)) 1 3, circle (10 / 13) (31 / 52) 1 4]],
      stage = 2, last_j = 1, pivot_k = 0\<rparr>
   \<and> positionBubble (circle (10 / 13) (31 / 52) 1 4) (circle 0 (- (1 / 6)) (1 / 12) 1)
       (coerce_radius ([point None 4, point None 5] ! 1))
     = circle (- (2380 / 2197)) (- (1385 / 8788)) 1 5
   \<and> checkOverlap (circle (- (2380 / 2197)) (- (1385 / 8788)) 1 5) (circle 0 (- (5 / 4)) 1 3)
   \<and> checkOverlap (circle (- (2380 / 2197)) (- (1385 / 8788)) 1 5)
       (circle (- (1 / 2)) (- (1 / 6)) (1 / 12) 2)
   \<and> place_loop
     \<lparr>bubblePos = [[circle 0 0 (1 / 12) 0],
                   [circle 0 (- (1 / 6)) (1 / 12) 1, circle (- (1 / 2)) (- (1 / 6)) (1 / 12) 2],
                   [circle 0 (- (5 / 4)) 1 3]],
      stage = 2, last_j = 0, pivot_k = 0\<rparr>
     (take (1 + 1) [point None 4, point None 5])
   = \<lparr>bubblePos = [[circle 0 0 (1 / 12) 0],
                   [circle 0 (- (1 / 6)) (1 / 12) 1, circle (- (1 / 2)) (- (1 / 6)) (1 / 12) 2],
                   [circle 0 (- (5 / 4)) 1 3, circle (10 / 13) (31 / 52) 1 4],
                   [circle (5 / 13 - 12 * sqrt 3 / 13) (5 * sqrt 3 / 13 - 17 / 52) 1 5]],
      stage = 3, last_j = 0, pivot_k = 0\<rparr>"
proof -
  have inv: "packing_inv
     \<lparr>bubblePos = [[circle 0 0 (1 / 12) 0],
                   [circle 0 (- (1 / 6)) (1 / 12) 1, circle (- (1 / 2)) (- (1 / 6)) (1 / 12) 2],
                   [circle 0 (- (5 / 4)) 1 3]],
      stage = 2, last_j = 0, pivot_k = 0\<rparr>"
    by (simp add: packing_inv_def)
  have next5: "coerce_radius ([point None 4, point None 5] ! 1) = point (Some (Fin 1)) 5"
    by (simp add: coerce_radius_def or_one_def falsy_def)
  have t1: "take 1 [point None 4, point None 5] = [point None 4]"
    by simp
  show ?thesis
    using ring_closing_precedes_pivot_advance [where i = 1
        and circles = "[point None 4, point None 5]" and ?st0.0 =
      "\<lparr>bubblePos = [[circle 0 0 (1 / 12) 0],
                   [circle 0 (- (1 / 6)) (1 / 12) 1, circle (- (1 / 2)) (- (1 / 6)) (1 / 12) 2],
                   [circle 0 (- (5 / 4)) 1 3]],
      stage = 2, last_j = 0, pivot_k = 0\<rparr>", OF inv]
    unfolding t1 ring_first_step next5
    by (simp add: ring_pos_candidate ring_pos_new ring_overlaps inv del: place_loop.simps)
qed

subsection \<open>resizeRadius\<close>

lemma isFinite_iff: "isFinite n \<longleftrightarrow> n = Fin (fin_value n)"
  by (cases n) simp_all

lemma Math_min_Fin: "Math_min (Fin a) (Fin b) = Fin (min a b)"
  by (simp add: Math_min_def min_def not_less)

lemma Math_max_Fin: "Math_max (Fin a) (Fin b) = Fin (max a b)"
  by (simp add: Math_max_def max_def not_less)

lemma finite_bubbleD:
  assumes "finite_bubble p"
  shows "ToNumber (cx p) = Fin (bubble_x p)" "ToNumber (cy p) = Fin (bubble_y p)"
    "ToNumber (radius p) = Fin (bubble_r p)"
  using assms by (simp_all add: finite_bubble_def bubble_x_def bubble_y_def bubble_r_def isFinite_iff [symmetric])

lemma bBox_step_Fin:
  assumes "finite_bubble p"
  shows "bBox_step (Fin a, Fin b, Fin c, Fin d) p
         = (Fin (min a (bubble_x p - bubble_r p)), Fin (max b (bubble_x p + bubble_r p)),
            Fin (min c (bubble_y p - bubble_r p)), Fin (max d (bubble_y p + bubble_r p)))"
  by (simp add: bBox_step_def finite_bubbleD [OF assms] Math_min_Fin Math_max_Fin nsub_def)

lemma bBox_step_first:
  assumes "finite_bubble p"
  shows "bBox_step (PInf, NInf, PInf, NInf) p
         = (Fin (bubble_x p - bubble_r p), Fin (bubble_x p + bubble_r p),
            Fin (bubble_y p - bubble_r p), Fin (bubble_y p + bubble_r p))"
  by (simp add: bBox_step_def finite_bubbleD [OF assms] Math_min_def Math_max_def nsub_def)

lemma foldl_bBox_step_Fin:
  assumes "\<forall>p\<in>set ps. finite_bubble p"
  shows "foldl bBox_step (Fin a, Fin b, Fin c, Fin d) ps
         = (Fin (Min (insert a ((\<lambda>p. bubble_x p - bubble_r p) ` set ps))),
            Fin (Max (insert b ((\<lambda>p. bubble_x p + bubble_r p) ` set ps))),
            Fin (Min (insert c ((\<lambda>p. bubble_y p - bubble_r p) ` set ps))),
            Fin (Max (insert d ((\<lambda>p. bubble_y p + bubble_r p) ` set ps))))"
  using assms
proof (induction ps arbitrary: a b c d)
  case Nil
  then show ?case by simp
next
  case (Cons p ps)
  have fin: "finite (f ` set ps)" for f :: "bubble \<Rightarrow> real"
    by simp
  have mn: "Min (insert (min u v) (f ` set ps)) = Min (insert u (insert v (f ` set ps)))"
    for u v and f :: "bubble \<Rightarrow> real"
    by (cases "set ps = {}") (simp_all add: min.assoc)
  have mx: "Max (insert (max u v) (f ` set ps)) = Max (insert u (insert v (f ` set ps)))"
    for u v and f :: "bubble \<Rightarrow> real"
    by (cases "set ps = {}") (simp_all add: max.assoc)
  from Cons.prems have p: "finite_bubble p" and ps: "\<forall>p\<in>set ps. finite_bubble p"
    by simp_all
  show ?case
    by (simp only: foldl_Cons bBox_step_Fin [OF p] Cons.IH [OF ps] mn mx list.set image_insert)
qed

lemma bounds_finite:
  assumes "\<forall>p\<in>set ps. finite_bubble p" and "ps \<noteq> []"
  shows "bounds ps
         = (Fin (Min ((\<lambda>p. bubble_x p - bubble_r p) ` set ps)),
            Fin (Max ((\<lambda>p. bubble_x p + bubble_r p) ` set ps)),
            Fin (Min ((\<lambda>p. bubble_y p - bubble_r p) ` set ps)),
            Fin (Max ((\<lambda>p. bubble_y p + bubble_r p) ` set ps)))"
proof -
  from assms(2) obtain p qs where ps: "ps = p # qs"
    by (cases ps) simp_all
  with assms(1) have p: "finite_bubble p" and qs: "\<forall>p\<in>set qs. finite_bubble p"
    by simp_all
  show ?thesis
    unfolding bounds_def ps
    by (simp only: foldl_Cons bBox_step_first [OF p] foldl_bBox_step_Fin [OF qs] list.set
        image_insert)
qed


lemma scale_radius_finite:
  assumes "finite_bubble p"
  shows "scale_radius (Fin f) p = p\<lparr>radius := Some (Fin (bubble_r p * f))\<rparr>"
  by (simp add: scale_radius_def finite_bubbleD [OF assms])

text \<open>
  What resizeRadius computes for a packing of finitely placed bubbles with a bounding box
  of non-zero width and height: the bounding box is the least and greatest
  \<open>x \<plusminus> radius\<close> and \<open>y \<plusminus> radius\<close> over all bubbles, and the scale factor is the
  smaller of (plotWidth - plotLeft) / box width and (plotHeight - plotTop) / box height.
  If the factor differs from 1 by more than 1e-10, every bubble's radius, and only the
  radius, is multiplied by the factor and placeBubbles is called on these bubbles.
  Otherwise resizeRadius returns with offsets diffX and diffY that move the centre of the
  bounding box onto the point (plotLeft + plotWidth / 2, plotTop + plotHeight / 2).
\<close>

lemma resizeRadius_scale_and_offsets:
  fixes ch :: chart and L T W H :: real
  defines "ps \<equiv> rawPositions ch"
  defines "minX \<equiv> Min ((\<lambda>p. bubble_x p - bubble_r p) ` set ps)"
  defines "maxX \<equiv> Max ((\<lambda>p. bubble_x p + bubble_r p) ` set ps)"
  defines "minY \<equiv> Min ((\<lambda>p. bubble_y p - bubble_r p) ` set ps)"
  defines "maxY \<equiv> Max ((\<lambda>p. bubble_y p + bubble_r p) ` set ps)"
  defines "scale \<equiv> min ((W - L) / (maxX - minX)) ((H - T) / (maxY - minY))"
  assumes fin: "\<forall>p\<in>set ps. finite_bubble p" and ne: "ps \<noteq> []"
    and plot: "plotLeft ch = Fin L" "plotTop ch = Fin T" "plotWidth ch = Fin W"
      "plotHeight ch = Fin H"
    and box: "maxX \<noteq> minX" "maxY \<noteq> minY"
  shows "(1 / 10 ^ 10 < \<bar>scale - 1\<bar> \<longrightarrow>
            resizeRadius ch =
              Option.bind
                (placeBubbles
                   (ch\<lparr>stages := map (map (scale_radius (Fin scale))) (stages ch),
                       rawPositions := map (scale_radius (Fin scale)) ps\<rparr>)
                   (map (scale_radius (Fin scale)) ps))
                (\<lambda>(_, ch', _). Some ch')
          \<and> (\<forall>p\<in>set ps. scale_radius (Fin scale) p
                             = p\<lparr>radius := Some (Fin (bubble_r p * scale))\<rparr>))
       \<and> (\<not> 1 / 10 ^ 10 < \<bar>scale - 1\<bar> \<longrightarrow>
            (\<exists>dx dy. resizeRadius ch = Some (ch\<lparr>diffY := Fin dy, diffX := Fin dx\<rparr>)
               \<and> (minX + maxX) / 2 + dx = L + W / 2
               \<and> (minY + maxY) / 2 + dy = T + H / 2))"
proof -
  have b: "bounds (rawPositions ch) = (Fin minX, Fin maxX, Fin minY, Fin maxY)"
    using bounds_finite [OF fin ne] by (simp add: ps_def minX_def maxX_def minY_def maxY_def)
  have sd: "smallerDimension ch (rawPositions ch) = Fin scale"
    using box by (simp add: smallerDimension_def b plot nsub_def Math_min_Fin scale_def)
  have test: "ngreater (Math_abs (nsub (Fin scale) (Fin 1))) (Fin (1 / 10 ^ 10))
              \<longleftrightarrow> 1 / 10 ^ 10 < \<bar>scale - 1\<bar>"
    by (simp add: ngreater_def nsub_def)
  have rescale: "resizeRadius ch =
              Option.bind
                (placeBubbles
                   (ch\<lparr>stages := map (map (scale_radius (Fin scale))) (stages ch),
                       rawPositions := map (scale_radius (Fin scale)) ps\<rparr>)
                   (map (scale_radius (Fin scale)) ps))
                (\<lambda>(_, ch', _). Some ch')"
    if "1 / 10 ^ 10 < \<bar>scale - 1\<bar>"
    using that unfolding resizeRadius_def resize_step_def Let_def sd test
    by (simp add: ps_def)
  have radius_only: "\<forall>p\<in>set ps. scale_radius (Fin scale) p
                             = p\<lparr>radius := Some (Fin (bubble_r p * scale))\<rparr>"
    using fin by (simp add: scale_radius_finite)
  define dx where "dx = W / 2 + L - minX - (maxX - minX) / 2"
  define dy where "dy = H / 2 + T - minY - (maxY - minY) / 2"
  have centre: "resizeRadius ch = Some (ch\<lparr>diffY := Fin dy, diffX := Fin dx\<rparr>)"
    if "\<not> 1 / 10 ^ 10 < \<bar>scale - 1\<bar>"
    using that unfolding resizeRadius_def resize_step_def Let_def sd test
    by (simp add: b plot nsub_def dx_def dy_def)
  have "(minX + maxX) / 2 + dx = L + W / 2" and "(minY + maxY) / 2 + dy = T + H / 2"
    by (simp_all add: dx_def dy_def field_simps)
  with centre rescale radius_only show ?thesis
    by blast
qed


lemma two_place:
  "placeBubbles
     ((fresh_chart (Fin 1) (Fin 2) (Fin 7) (Fin 12))\<lparr>minRadius := Fin 2, maxRadius := Fin 6\<rparr>)
     [point (Some (Fin 3)) 0, point (Some (Fin 2)) 1]
   = Some (map Bubble [circle 0 0 3 0, circle 0 (- 5) 2 1],
           (fresh_chart (Fin 1) (Fin 2) (Fin 7) (Fin 12))
             \<lparr>minRadius := Fin 2, maxRadius := Fin 6,
              stages := [[circle 0 0 3 0], [circle 0 (- 5) 2 1]],
              rawPositions := [circle 0 0 3 0, circle 0 (- 5) 2 1],
              diffX := Fin (9 / 2), diffY := Fin 10\<rparr>,
           [point (Some (Fin 3)) 0, point (Some (Fin 2)) 1])"
  by (subst placeBubbles.simps)
    (simp add: sort_bubbles_def compare_radius_def ngreater_def nsub_def seed_packing_def
      resize_step_def smallerDimension_def bounds_def bBox_step_def Math_min_def Math_max_def
      Let_def fresh_chart_def)

lemma two_place_fit:
  "placeBubbles
     ((fresh_chart (Fin 1) (Fin 2) (Fin 6) (Fin 10))\<lparr>minRadius := Fin 2, maxRadius := Fin 6\<rparr>)
     [point (Some (Fin 3)) 0, point (Some (Fin 2)) 1]
   = Some (map Bubble [circle 0 0 (12 / 5) 0, circle 0 (- 4) (8 / 5) 1],
           (fresh_chart (Fin 1) (Fin 2) (Fin 6) (Fin 10))
             \<lparr>minRadius := Fin 2, maxRadius := Fin 6,
              stages := [[circle 0 0 (12 / 5) 0], [circle 0 (- 4) (8 / 5) 1]],
              rawPositions := [circle 0 0 (12 / 5) 0, circle 0 (- 4) (8 / 5) 1],
              diffX := Fin 4, diffY := Fin (43 / 5)\<rparr>,
           [point (Some (Fin 3)) 0, point (Some (Fin 2)) 1])"
  apply (subst placeBubbles.simps)
  apply (simp add: sort_bubbles_def compare_radius_def ngreater_def nsub_def seed_packing_def
      resize_step_def smallerDimension_def bounds_def bBox_step_def Math_min_def Math_max_def
      Let_def fresh_chart_def scale_radius_def)
  apply (subst placeBubbles.simps)
  apply (simp add: sort_bubbles_def compare_radius_def ngreater_def nsub_def seed_packing_def
      resize_step_def smallerDimension_def bounds_def bBox_step_def Math_min_def Math_max_def
      Let_def fresh_chart_def scale_radius_def)
  done


text \<open>
  Claim C3. After a packing, resizeRadius should take the scale factor of the bounding
  box against the plot area, rescale and pack again if the factor differs from 1 by more
  than 1e-10, and otherwise centre the bounding box in the plot area. The code divides
  \<open>plotWidth - plotLeft\<close> and \<open>plotHeight - plotTop\<close> by the sides of the bounding box,
  although \<open>plotWidth\<close> and \<open>plotHeight\<close> are the sides of the plot area already, and
  centres on the middle of the plot area. For one series with the data \<open>[6, 4]\<close> and
  the sizes 2 and 6 (radii 3 and 2, bounding box 6 by 10) and a plot area at (1, 2):
  in a plot area of 7 by 12 the layout is accepted as it is and centred, where the factor
  against the plot area is 7/6; in a plot area of 6 by 10, which the bounding box fits
  exactly (factor 1), the radii are multiplied by 4/5 and the bubbles packed again.
\<close>

theorem resizeRadius_scale_not_plot_area:
  "translate_positions
     [\<lparr>visible = True, processedYData = [Some (Fin 6), Some (Fin 4)], index = Fin 0\<rparr>]
     \<lparr>chart = fresh_chart (Fin 1) (Fin 2) (Fin 7) (Fin 12), minPointSize = Fin 2,
      maxPointSize = Fin 6, sizeBy = ''width'', allDataPoints = [], radii = []\<rparr>
   = Some (map Bubble [circle 0 0 3 0, circle 0 (- 5) 2 1],
       \<lparr>chart = (fresh_chart (Fin 1) (Fin 2) (Fin 7) (Fin 12))
             \<lparr>minRadius := Fin 2, maxRadius := Fin 6,
              stages := [[circle 0 0 3 0], [circle 0 (- 5) 2 1]],
              rawPositions := [circle 0 0 3 0, circle 0 (- 5) 2 1],
              diffX := Fin (9 / 2), diffY := Fin 10\<rparr>,
        minPointSize = Fin 2, maxPointSize = Fin 6, sizeBy = ''width'',
        allDataPoints = [point (Some (Fin 3)) 0, point (Some (Fin 2)) 1],
        radii = [Some (Fin 3), Some (Fin 2)]\<rparr>)
   \<and> bounds [circle 0 0 3 0, circle 0 (- 5) 2 1] = (Fin (- 3), Fin 3, Fin (- 7), Fin 3)
   \<and> smallerDimension (fresh_chart (Fin 1) (Fin 2) (Fin 7) (Fin 12))
         [circle 0 0 3 0, circle 0 (- 5) 2 1] = Fin 1
   \<and> plotAreaRatio (fresh_chart (Fin 1) (Fin 2) (Fin 7) (Fin 12))
         [circle 0 0 3 0, circle 0 (- 5) 2 1] = Fin (7 / 6)
   \<and> translate_positions
     [\<lparr>visible = True, processedYData = [Some (Fin 6), Some (Fin 4)], index = Fin 0\<rparr>]
     \<lparr>chart = fresh_chart (Fin 1) (Fin 2) (Fin 6) (Fin 10), minPointSize = Fin 2,
      maxPointSize = Fin 6, sizeBy = ''width'', allDataPoints = [], radii = []\<rparr>
   = Some (map Bubble [circle 0 0 (12 / 5) 0, circle 0 (- 4) (8 / 5) 1],
       \<lparr>chart = (fresh_chart (Fin 1) (Fin 2) (Fin 6) (Fin 10))
             \<lparr>minRadius := Fin 2, maxRadius := Fin 6,
              stages := [[circle 0 0 (12 / 5) 0], [circle 0 (- 4) (8 / 5) 1]],
              rawPositions := [circle 0 0 (12 / 5) 0, circle 0 (- 4) (8 / 5) 1],
              diffX := Fin 4, diffY := Fin (43 / 5)\<rparr>,
        minPointSize = Fin 2, maxPointSize = Fin 6, sizeBy = ''width'',
        allDataPoints = [point (Some (Fin 3)) 0, point (Some (Fin 2)) 1],
        radii = [Some (Fin 3), Some (Fin 2)]\<rparr>)
   \<and> smallerDimension (fresh_chart (Fin 1) (Fin 2) (Fin 6) (Fin 10))
         [circle 0 0 3 0, circle 0 (- 5) 2 1] = Fin (4 / 5)
   \<and> plotAreaRatio (fresh_chart (Fin 1) (Fin 2) (Fin 6) (Fin 10))
         [circle 0 0 3 0, circle 0 (- 5) 2 1] = Fin 1"
proof -
  have r: "pointRadius (Fin 2) (Fin 6) False (Some (Fin 6)) = Some (Fin 3)"
    "pointRadius (Fin 2) (Fin 6) False (Some (Fin 4)) = Some (Fin 2)"
    by (simp_all add: pointRadius_def nsub_def ngreater_def ngeq_def)
  have g: "getRadius
     (\<lparr>chart = fresh_chart pl pt pw ph, minPointSize = Fin 2,
      maxPointSize = Fin 6, sizeBy = ''width'', allDataPoints = [], radii = []\<rparr>
      \<lparr>allDataPoints := accumulateAllPoints
         [\<lparr>visible = True, processedYData = [Some (Fin 6), Some (Fin 4)], index = Fin 0\<rparr>]\<rparr>)
     = \<lparr>chart = (fresh_chart pl pt pw ph)\<lparr>minRadius := Fin 2, maxRadius := Fin 6\<rparr>,
        minPointSize = Fin 2, maxPointSize = Fin 6, sizeBy = ''width'',
        allDataPoints = [point (Some (Fin 3)) 0, point (Some (Fin 2)) 1],
        radii = [Some (Fin 3), Some (Fin 2)]\<rparr>" for pl pt pw ph
    by (simp add: getRadius_def extremes_def isPercent_def accumulateAllPoints_def r Let_def)
  have b: "bounds [circle 0 0 3 0, circle 0 (- 5) 2 1] = (Fin (- 3), Fin 3, Fin (- 7), Fin 3)"
    by (simp add: bounds_def bBox_step_def Math_min_def Math_max_def nsub_def Let_def)
  have t1: "translate_positions
     [\<lparr>visible = True, processedYData = [Some (Fin 6), Some (Fin 4)], index = Fin 0\<rparr>]
     \<lparr>chart = fresh_chart (Fin 1) (Fin 2) (Fin 7) (Fin 12), minPointSize = Fin 2,
      maxPointSize = Fin 6, sizeBy = ''width'', allDataPoints = [], radii = []\<rparr>
   = Some (map Bubble [circle 0 0 3 0, circle 0 (- 5) 2 1],
       \<lparr>chart = (fresh_chart (Fin 1) (Fin 2) (Fin 7) (Fin 12))
             \<lparr>minRadius := Fin 2, maxRadius := Fin 6,
              stages := [[circle 0 0 3 0], [circle 0 (- 5) 2 1]],
              rawPositions := [circle 0 0 3 0, circle 0 (- 5) 2 1],
              diffX := Fin (9 / 2), diffY := Fin 10\<rparr>,
        minPointSize = Fin 2, maxPointSize = Fin 6, sizeBy = ''width'',
        allDataPoints = [point (Some (Fin 3)) 0, point (Some (Fin 2)) 1],
        radii = [Some (Fin 3), Some (Fin 2)]\<rparr>)"
    unfolding translate_positions_def Let_def g by (simp add: two_place)
  have t2: "translate_positions
     [\<lparr>visible = True, processedYData = [Some (Fin 6), Some (Fin 4)], index = Fin 0\<rparr>]
     \<lparr>chart = fresh_chart (Fin 1) (Fin 2) (Fin 6) (Fin 10), minPointSize = Fin 2,
      maxPointSize = Fin 6, sizeBy = ''width'', allDataPoints = [], radii = []\<rparr>
   = Some (map Bubble [circle 0 0 (12 / 5) 0, circle 0 (- 4) (8 / 5) 1],
       \<lparr>chart = (fresh_chart (Fin 1) (Fin 2) (Fin 6) (Fin 10))
             \<lparr>minRadius := Fin 2, maxRadius := Fin 6,
              stages := [[circle 0 0 (12 / 5) 0], [circle 0 (- 4) (8 / 5) 1]],
              rawPositions := [circle 0 0 (12 / 5) 0, circle 0 (- 4) (8 / 5) 1],
              diffX := Fin 4, diffY := Fin (43 / 5)\<rparr>,
        minPointSize = Fin 2, maxPointSize = Fin 6, sizeBy = ''width'',
        allDataPoints = [point (Some (Fin 3)) 0, point (Some (Fin 2)) 1],
        radii = [Some (Fin 3), Some (Fin 2)]\<rparr>)"
    unfolding translate_positions_def Let_def g by (simp add: two_place_fit)
  have s1: "smallerDimension (fresh_chart (Fin 1) (Fin 2) (Fin 7) (Fin 12))
         [circle 0 0 3 0, circle 0 (- 5) 2 1] = Fin 1"
    by (simp add: smallerDimension_def b fresh_chart_def nsub_def Math_min_def)
  have p1: "plotAreaRatio (fresh_chart (Fin 1) (Fin 2) (Fin 7) (Fin 12))
         [circle 0 0 3 0, circle 0 (- 5) 2 1] = Fin (7 / 6)"
    by (simp add: plotAreaRatio_def b fresh_chart_def nsub_def Math_min_def)
  have s2: "smallerDimension (fresh_chart (Fin 1) (Fin 2) (Fin 6) (Fin 10))
         [circle 0 0 3 0, circle 0 (- 5) 2 1] = Fin (4 / 5)"
    by (simp add: smallerDimension_def b fresh_chart_def nsub_def Math_min_def)
  have p2: "plotAreaRatio (fresh_chart (Fin 1) (Fin 2) (Fin 6) (Fin 10))
         [circle 0 0 3 0, circle 0 (- 5) 2 1] = Fin 1"
    by (simp add: plotAreaRatio_def b fresh_chart_def nsub_def Math_min_def)
  from t1 b s1 p1 t2 s2 p2 show ?thesis
    by (intro conjI)
qed

subsection \<open>The arrays that are updated in place\<close>
























subsection \<open>A finalized layout with overlapping bubbles\<close>

text \<open>
  One series with the data \<open>[5, null, null, null, null, null, null, null, null]\<close>, both
  sizes 2, in a plot area of width 10 and height 6. The value 5 gets the radius 1, the
  \<open>null\<close> values the radius \<open>null\<close>; from the third bubble on the loop coerces the
  radius to 1. The bubbles 2 to 7 form a hexagon around bubble 0. The candidate for bubble
  8 is the position of bubble 2; it is only compared with bubble 1, the first of the
  level, whose radius is \<open>null\<close>.
\<close>

lemma hex_pos2:
  "positionBubble null_circle (circle 0 0 1 0) (point (Some (Fin 1)) 2) = circle 0 (- 2) 1 2"
  by (subst positionBubble_rotation [where lx = 0 and ly = "- 1" and lr = 0
        and ox = 0 and oy = 0 and orad = 1 and nr = 1
        and d = 1 and c = 1 and s = 0]) simp_all

lemma hex_pos3:
  "positionBubble (circle 0 (- 2) 1 2) (circle 0 0 1 0) (point (Some (Fin 1)) 3)
   = circle (sqrt 3) (- 1) 1 3"
  by (subst positionBubble_rotation [where lx = 0 and ly = "- 2" and lr = 1
        and ox = 0 and oy = 0 and orad = 1 and nr = 1
        and d = 2 and c = "1 / 2" and s = "sqrt 3 / 2"]) simp_all

lemma hex_pos4:
  "positionBubble (circle (sqrt 3) (- 1) 1 3) (circle 0 0 1 0) (point (Some (Fin 1)) 4)
   = circle (sqrt 3) 1 1 4"
  by (subst positionBubble_rotation [where lx = "sqrt 3" and ly = "- 1" and lr = 1
        and ox = 0 and oy = 0 and orad = 1 and nr = 1
        and d = 2 and c = "1 / 2" and s = "sqrt 3 / 2"]) simp_all

lemma hex_pos5:
  "positionBubble (circle (sqrt 3) 1 1 4) (circle 0 0 1 0) (point (Some (Fin 1)) 5)
   = circle 0 2 1 5"
  by (subst positionBubble_rotation [where lx = "sqrt 3" and ly = 1 and lr = 1
        and ox = 0 and oy = 0 and orad = 1 and nr = 1
        and d = 2 and c = "1 / 2" and s = "sqrt 3 / 2"]) simp_all

lemma hex_pos6:
  "positionBubble (circle 0 2 1 5) (circle 0 0 1 0) (point (Some (Fin 1)) 6)
   = circle (- sqrt 3) 1 1 6"
  by (subst positionBubble_rotation [where lx = 0 and ly = 2 and lr = 1
        and ox = 0 and oy = 0 and orad = 1 and nr = 1
        and d = 2 and c = "1 / 2" and s = "sqrt 3 / 2"]) simp_all

lemma hex_pos7:
  "positionBubble (circle (- sqrt 3) 1 1 6) (circle 0 0 1 0) (point (Some (Fin 1)) 7)
   = circle (- sqrt 3) (- 1) 1 7"
  by (subst positionBubble_rotation [where lx = "- sqrt 3" and ly = 1 and lr = 1
        and ox = 0 and oy = 0 and orad = 1 and nr = 1
        and d = 2 and c = "1 / 2" and s = "sqrt 3 / 2"]) simp_all

lemma hex_pos8:
  "positionBubble (circle (- sqrt 3) (- 1) 1 7) (circle 0 0 1 0) (point (Some (Fin 1)) 8)
   = circle 0 (- 2) 1 8"
  by (subst positionBubble_rotation [where lx = "- sqrt 3" and ly = "- 1" and lr = 1
        and ox = 0 and oy = 0 and orad = 1 and nr = 1
        and d = 2 and c = "1 / 2" and s = "sqrt 3 / 2"]) simp_all


lemma hex_free:
  "\<not> checkOverlap (circle 0 (- 2) 1 i) null_circle"
  "\<not> checkOverlap (circle (sqrt 3) (- 1) 1 i) null_circle"
  "\<not> checkOverlap (circle (sqrt 3) 1 1 i) null_circle"
  "\<not> checkOverlap (circle 0 2 1 i) null_circle"
  "\<not> checkOverlap (circle (- sqrt 3) 1 1 i) null_circle"
  "\<not> checkOverlap (circle (- sqrt 3) (- 1) 1 i) null_circle"
       apply (subst checkOverlap_squared [where ?x1.0 = 0 and ?y1.0 = "- 2"
          and ?r1.0 = 1 and ?x2.0 = 0 and ?y2.0 = "- 1" and ?r2.0 = 0]; simp)
      apply (subst checkOverlap_squared [where ?x1.0 = "sqrt 3" and ?y1.0 = "- 1"
          and ?r1.0 = 1 and ?x2.0 = 0 and ?y2.0 = "- 1" and ?r2.0 = 0]; simp)
     apply (subst checkOverlap_squared [where ?x1.0 = "sqrt 3" and ?y1.0 = 1
          and ?r1.0 = 1 and ?x2.0 = 0 and ?y2.0 = "- 1" and ?r2.0 = 0]; simp)
    apply (subst checkOverlap_squared [where ?x1.0 = 0 and ?y1.0 = 2
          and ?r1.0 = 1 and ?x2.0 = 0 and ?y2.0 = "- 1" and ?r2.0 = 0]; simp)
   apply (subst checkOverlap_squared [where ?x1.0 = "- sqrt 3" and ?y1.0 = 1
          and ?r1.0 = 1 and ?x2.0 = 0 and ?y2.0 = "- 1" and ?r2.0 = 0]; simp)
  apply (subst checkOverlap_squared [where ?x1.0 = "- sqrt 3" and ?y1.0 = "- 1"
          and ?r1.0 = 1 and ?x2.0 = 0 and ?y2.0 = "- 1" and ?r2.0 = 0]; simp)
  done

lemma hex_overlap: "checkOverlap (circle 0 (- 2) 1 2) (circle 0 (- 2) 1 8)"
  by (subst checkOverlap_squared [where ?x1.0 = 0 and ?y1.0 = "- 2"
          and ?r1.0 = 1 and ?x2.0 = 0 and ?y2.0 = "- 2" and ?r2.0 = 1]) simp_all

lemma hex_loop:
  "place_loop
     (seed_packing [point (Some (Fin 1)) 0, point None 1, point None 2, point None 3,
                    point None 4, point None 5, point None 6, point None 7, point None 8])
     [point None 2, point None 3, point None 4, point None 5, point None 6, point None 7,
      point None 8]
   = \<lparr>bubblePos =
        [[circle 0 0 1 0],
         [null_circle, circle 0 (- 2) 1 2, circle (sqrt 3) (- 1) 1 3, circle (sqrt 3) 1 1 4,
          circle 0 2 1 5, circle (- sqrt 3) 1 1 6, circle (- sqrt 3) (- 1) 1 7,
          circle 0 (- 2) 1 8]],
      stage = 1, last_j = 7, pivot_k = 0\<rparr>"
  by (simp add: seed_packing_def placeStep_def coerce_radius_def or_one_def falsy_def nsub_def
      hex_pos2 hex_pos3 hex_pos4 hex_pos5 hex_pos6 hex_pos7 hex_pos8 hex_free)

lemma hex_bounds:
  "bounds [circle 0 0 1 0, null_circle, circle 0 (- 2) 1 2, circle (sqrt 3) (- 1) 1 3,
           circle (sqrt 3) 1 1 4, circle 0 2 1 5, circle (- sqrt 3) 1 1 6,
           circle (- sqrt 3) (- 1) 1 7, circle 0 (- 2) 1 8]
   = (Fin (- sqrt 3 - 1), Fin (sqrt 3 + 1), Fin (- 3), Fin 3)"
  by (simp add: bounds_def bBox_step_def Math_min_def Math_max_def nsub_def Let_def)


lemma nsub_Fin: "nsub (Fin a) (Fin b) = Fin (a - b)"
  by (simp add: nsub_def)

lemma hex_smallerDimension:
  assumes "plotLeft ch = Fin 0" "plotTop ch = Fin 0" "plotWidth ch = Fin 10"
    "plotHeight ch = Fin 6"
  shows "smallerDimension ch
           [circle 0 0 1 0, null_circle, circle 0 (- 2) 1 2, circle (sqrt 3) (- 1) 1 3,
            circle (sqrt 3) 1 1 4, circle 0 2 1 5, circle (- sqrt 3) 1 1 6,
            circle (- sqrt 3) (- 1) 1 7, circle 0 (- 2) 1 8] = Fin 1"
proof -
  have "sqrt 3 < sqrt 4"
    by (rule real_sqrt_less_mono) simp
  then have lt: "sqrt 3 < 2"
    by simp
  have gt: "0 < sqrt 3"
    by simp
  define w where "w = sqrt 3 + 1 - (- sqrt 3 - 1)"
  have w: "0 < w" "w < 10"
    using lt gt unfolding w_def by linarith+
  then have "1 < 10 / w"
    by (simp add: less_divide_eq)
  with w have m: "Math_min (ndiv (Fin (10 - 0)) (Fin w)) (ndiv (Fin (6 - 0)) (Fin (3 - (- 3))))
                  = Fin 1"
    by (simp add: Math_min_def)
  show ?thesis
    unfolding smallerDimension_def hex_bounds assms prod.case nsub_Fin w_def [symmetric]
    by (rule m)
qed

lemma hex_resize_step:
  assumes "plotLeft ch = Fin 0" "plotTop ch = Fin 0" "plotWidth ch = Fin 10"
    "plotHeight ch = Fin 6"
    and "rawPositions ch =
           [circle 0 0 1 0, null_circle, circle 0 (- 2) 1 2, circle (sqrt 3) (- 1) 1 3,
            circle (sqrt 3) 1 1 4, circle 0 2 1 5, circle (- sqrt 3) 1 1 6,
            circle (- sqrt 3) (- 1) 1 7, circle 0 (- 2) 1 8]"
  shows "resize_step ch = Inl (ch\<lparr>diffY := Fin 3, diffX := Fin 5\<rparr>)"
proof -
  have dX: "nsub (nsub (nadd (ndiv (Fin 10) (Fin 2)) (Fin 0)) (Fin (- sqrt 3 - 1)))
                 (ndiv (nsub (Fin (sqrt 3 + 1)) (Fin (- sqrt 3 - 1))) (Fin 2)) = Fin 5"
    by (simp add: nsub_def field_simps)
  have dY: "nsub (nsub (nadd (ndiv (Fin 6) (Fin 2)) (Fin 0)) (Fin (- 3)))
                 (ndiv (nsub (Fin 3) (Fin (- 3))) (Fin 2)) = Fin 3"
    by (simp add: nsub_def)
  have fit: "\<not> ngreater (Math_abs (nsub (Fin 1) (Fin 1))) (Fin (1 / 10 ^ 10))"
    by (simp add: ngreater_def nsub_def)
  show ?thesis
    unfolding resize_step_def Let_def assms(5) hex_smallerDimension [OF assms(1-4)] hex_bounds
      assms(1-4) prod.case dX dY
    using fit by (simp only: if_False)
qed

lemma hex_place:
  "placeBubbles
     ((fresh_chart (Fin 0) (Fin 0) (Fin 10) (Fin 6))\<lparr>minRadius := Fin 2, maxRadius := Fin 2\<rparr>)
     [point (Some (Fin 1)) 0, point None 1, point None 2, point None 3,
      point None 4, point None 5, point None 6, point None 7, point None 8]
   = Some
      (map Bubble
         [circle 0 0 1 0, null_circle, circle 0 (- 2) 1 2, circle (sqrt 3) (- 1) 1 3,
          circle (sqrt 3) 1 1 4, circle 0 2 1 5, circle (- sqrt 3) 1 1 6,
          circle (- sqrt 3) (- 1) 1 7, circle 0 (- 2) 1 8],
       (fresh_chart (Fin 0) (Fin 0) (Fin 10) (Fin 6))
         \<lparr>minRadius := Fin 2, maxRadius := Fin 2,
          stages :=
            [[circle 0 0 1 0],
             [null_circle, circle 0 (- 2) 1 2, circle (sqrt 3) (- 1) 1 3, circle (sqrt 3) 1 1 4,
              circle 0 2 1 5, circle (- sqrt 3) 1 1 6, circle (- sqrt 3) (- 1) 1 7,
              circle 0 (- 2) 1 8]],
          rawPositions :=
            [circle 0 0 1 0, null_circle, circle 0 (- 2) 1 2, circle (sqrt 3) (- 1) 1 3,
             circle (sqrt 3) 1 1 4, circle 0 2 1 5, circle (- sqrt 3) 1 1 6,
             circle (- sqrt 3) (- 1) 1 7, circle 0 (- 2) 1 8],
          diffX := Fin 5, diffY := Fin 3\<rparr>,
       [point (Some (Fin 1)) 0, point None 1, point (Some (Fin 1)) 2,
        point (Some (Fin 1)) 3, point (Some (Fin 1)) 4, point (Some (Fin 1)) 5,
        point (Some (Fin 1)) 6, point (Some (Fin 1)) 7, point (Some (Fin 1)) 8])"
proof -
  have sorted: "sort_bubbles [point (Some (Fin 1)) 0, point None 1, point None 2, point None 3,
                   point None 4, point None 5, point None 6, point None 7, point None 8]
                = [point (Some (Fin 1)) 0, point None 1, point None 2, point None 3,
                   point None 4, point None 5, point None 6, point None 7, point None 8]"
    by (simp add: sort_bubbles_def compare_radius_def ngreater_def nsub_def)
  show ?thesis
    by (subst placeBubbles.simps)
      (simp add: sorted hex_loop hex_resize_step
        nsub_def ngreater_def fresh_chart_def coerce_radius_def or_one_def falsy_def Let_def
        del: place_loop.simps)
qed

text \<open>
  Claim C1. In a finalized layout, one that resizeRadius accepts without another packing,
  no two bubbles of the returned positions should overlap according to checkOverlap. The
  series breaks this: the layout of this population is final after the first packing (the
  bounding box has the height of the plot area, the scale factor is 1), and its bubbles 2
  and 8 have the same centre and the radius 1, so that checkOverlap is true for this
  pair of the returned positions.
\<close>

theorem translate_overlapping_layout:
  "translate_positions
     [\<lparr>visible = True,
       processedYData = [Some (Fin 5), None, None, None, None, None, None, None, None],
       index = Fin 0\<rparr>]
     \<lparr>chart = fresh_chart (Fin 0) (Fin 0) (Fin 10) (Fin 6), minPointSize = Fin 2,
      maxPointSize = Fin 2, sizeBy = ''radius'', allDataPoints = [], radii = []\<rparr>
   = Some
      (map Bubble
         [circle 0 0 1 0, null_circle, circle 0 (- 2) 1 2, circle (sqrt 3) (- 1) 1 3,
          circle (sqrt 3) 1 1 4, circle 0 2 1 5, circle (- sqrt 3) 1 1 6,
          circle (- sqrt 3) (- 1) 1 7, circle 0 (- 2) 1 8],
       \<lparr>chart = (fresh_chart (Fin 0) (Fin 0) (Fin 10) (Fin 6))
         \<lparr>minRadius := Fin 2, maxRadius := Fin 2,
          stages :=
            [[circle 0 0 1 0],
             [null_circle, circle 0 (- 2) 1 2, circle (sqrt 3) (- 1) 1 3, circle (sqrt 3) 1 1 4,
              circle 0 2 1 5, circle (- sqrt 3) 1 1 6, circle (- sqrt 3) (- 1) 1 7,
              circle 0 (- 2) 1 8]],
          rawPositions :=
            [circle 0 0 1 0, null_circle, circle 0 (- 2) 1 2, circle (sqrt 3) (- 1) 1 3,
             circle (sqrt 3) 1 1 4, circle 0 2 1 5, circle (- sqrt 3) 1 1 6,
             circle (- sqrt 3) (- 1) 1 7, circle 0 (- 2) 1 8],
          diffX := Fin 5, diffY := Fin 3\<rparr>,
        minPointSize = Fin 2, maxPointSize = Fin 2, sizeBy = ''radius'',
        allDataPoints =
          [point (Some (Fin 1)) 0, point None 1, point (Some (Fin 1)) 2,
           point (Some (Fin 1)) 3, point (Some (Fin 1)) 4, point (Some (Fin 1)) 5,
           point (Some (Fin 1)) 6, point (Some (Fin 1)) 7, point (Some (Fin 1)) 8],
        radii = [Some (Fin 1), None, None, None, None, None, None, None, None]\<rparr>)
   \<and> checkOverlap (circle 0 (- 2) 1 2) (circle 0 (- 2) 1 8)"
proof -
  have r: "pointRadius (Fin 2) (Fin 2) True (Some (Fin 5)) = Some (Fin 1)"
    "pointRadius (Fin 2) (Fin 2) True None = None"
    by (simp_all add: pointRadius_def nsub_def ngreater_def ngeq_def)
  have g: "getRadius
     (\<lparr>chart = fresh_chart (Fin 0) (Fin 0) (Fin 10) (Fin 6), minPointSize = Fin 2,
      maxPointSize = Fin 2, sizeBy = ''radius'', allDataPoints = [], radii = []\<rparr>
      \<lparr>allDataPoints := accumulateAllPoints
         [\<lparr>visible = True,
           processedYData = [Some (Fin 5), None, None, None, None, None, None, None, None],
           index = Fin 0\<rparr>]\<rparr>)
     = \<lparr>chart = (fresh_chart (Fin 0) (Fin 0) (Fin 10) (Fin 6))
                \<lparr>minRadius := Fin 2, maxRadius := Fin 2\<rparr>,
        minPointSize = Fin 2, maxPointSize = Fin 2, sizeBy = ''radius'',
        allDataPoints =
          [point (Some (Fin 1)) 0, point None 1, point None 2, point None 3,
           point None 4, point None 5, point None 6, point None 7, point None 8],
        radii = [Some (Fin 1), None, None, None, None, None, None, None, None]\<rparr>"
    by (simp add: getRadius_def extremes_def isPercent_def accumulateAllPoints_def r Let_def)
  show ?thesis
    unfolding translate_positions_def Let_def g
    by (simp add: hex_place hex_overlap)
qed

end
